theory Spec2Isabelle
  imports Main "HOL-Library.Word" "HOL-Library.Multiset"
begin

section \<open>The expression IR, as the two passes see it\<close>

text \<open>
  Expressions live in an arena: an \<open>Expression*\<close> of the source is an address
  (\<open>ExpressionRef\<close>), a nullable pointer is an \<open>option\<close>, and the arena itself is a
  store from addresses to nodes. Pointer equality of the source (\<open>curr->ref == child\<close>)
  is equality of addresses.
\<close>

type_synonym Name = string
type_synonym Index = nat
type_synonym ExpressionRef = nat
type_synonym HeapType = nat

datatype Nullability = NonNullable | Nullable

datatype Type = none | unreachable | i32 | i64 | f32 | f64 | v128
  | Ref HeapType Nullability

fun isRef :: "Type \<Rightarrow> bool" where
  "isRef (Ref h n) = True"
| "isRef t = False"

fun isNullable :: "Type \<Rightarrow> bool" where
  "isNullable (Ref h n) = (n = Nullable)"
| "isNullable t = False"

text \<open>\<open>Type::getHeapType\<close> asserts that the type is a reference.\<close>

fun getHeapType :: "Type \<Rightarrow> HeapType option" where
  "getHeapType (Ref h n) = Some h"
| "getHeapType t = None"

text \<open>
  Modelled from the spec: \<open>Literal\<close> (its header is not among the sources). Only
  \<open>i32\<close> constants carry a numeric value here: array sizes and array indices are
  \<open>i32\<close> operands. \<open>getUnsigned\<close> reads the 32 bits as unsigned, so
  \<open>i32.const -1\<close> is 4294967295.
\<close>

datatype Literal = LitI32 "32 word" | LitNull HeapType | LitZero Type

fun getUnsigned :: "Literal \<Rightarrow> nat option" where
  "getUnsigned (LitI32 w) = Some (unat w)"
| "getUnsigned l = None"

fun makeZero :: "Type \<Rightarrow> Literal" where
  "makeZero (Ref h n) = LitNull h"
| "makeZero i32 = LitI32 0"
| "makeZero t = LitZero t"

fun literalType :: "Literal \<Rightarrow> Type" where
  "literalType (LitI32 w) = i32"
| "literalType (LitNull h) = Ref h Nullable"
| "literalType (LitZero t) = t"

datatype RefAsOp = RefAsNonNull | AnyConvertExtern | ExternConvertAny

datatype AtomicRMWOp = RMWAdd | RMWSub | RMWAnd | RMWOr | RMWXor | RMWXchg

text \<open>
  One constructor per expression class the passes name, with the fields the passes
  read, in the order of the class declaration. \<open>IfExpr\<close> is the class \<open>If\<close>;
  \<open>Other\<close> stands for every class that neither pass names (call, return, ...).
\<close>

datatype ExpressionKind =
    Block Name "ExpressionRef list"
  | IfExpr ExpressionRef ExpressionRef "ExpressionRef option"
  | Loop Name ExpressionRef
  | Break Name "ExpressionRef option" "ExpressionRef option"
  | Switch "Name list" Name "ExpressionRef option" ExpressionRef
  | Call Name "ExpressionRef list"
  | LocalGet Index
  | LocalSet Index ExpressionRef bool
  | Const Literal
  | Drop ExpressionRef
  | Unreachable
  | Pop
  | RefNull
  | RefIsNull ExpressionRef
  | RefEq ExpressionRef ExpressionRef
  | RefAs RefAsOp ExpressionRef
  | RefTest ExpressionRef Type
  | RefCast ExpressionRef "ExpressionRef option"
  | RefGetDesc ExpressionRef
  | StructNew "ExpressionRef list" "ExpressionRef option"
  | StructGet Index ExpressionRef bool
  | StructSet Index ExpressionRef ExpressionRef
  | StructRMW AtomicRMWOp Index ExpressionRef ExpressionRef
  | StructCmpxchg Index ExpressionRef ExpressionRef ExpressionRef
  | ArrayNew ExpressionRef "ExpressionRef option"
  | ArrayNewFixed "ExpressionRef list"
  | ArrayGet ExpressionRef ExpressionRef bool
  | ArraySet ExpressionRef ExpressionRef ExpressionRef
  | ArrayRMW AtomicRMWOp ExpressionRef ExpressionRef ExpressionRef
  | ArrayCmpxchg ExpressionRef ExpressionRef ExpressionRef ExpressionRef
  | Other "ExpressionRef list"

record Expression =
  kind :: ExpressionKind
  type :: Type

type_synonym Arena = "ExpressionRef \<Rightarrow> Expression"

fun isConst :: "ExpressionKind \<Rightarrow> bool" where
  "isConst (Const l) = True"
| "isConst k = False"

text \<open>
  What can stop a run: a failed \<open>assert\<close>, a null pointer that is dereferenced, a read
  past the end of a \<open>std::vector\<close> (undefined in the source), \<open>WASM_UNREACHABLE\<close>
  and \<open>Fatal()\<close>.
\<close>

datatype error = AssertionFailed | NullDereference | OutOfBounds | WasmUnreachable | Fatal string


section \<open>Heap2Local: the escape analysis\<close>

text \<open>\<open>NoInteraction\<close> is the enumerator \<open>None\<close> of the source.\<close>

datatype ParentChildInteraction = Escapes | FullyConsumes | Flows | Mixes | NoInteraction

text \<open>
  The collaborators of \<open>EscapeAnalyzer\<close> are not part of the sources and are taken as
  parameters: the parent map, the local graph (\<open>getSetInfluences\<close>, and \<open>getSets\<close>,
  whose result may hold the null set that stands for the value a local has at function
  entry), the branch targets, \<open>Properties::getImmediateFallthrough\<close> (with the pass
  options and the module already applied), the helpers of \<open>BranchUtils\<close> and
  \<open>Type::isSubType\<close>. \<open>scopeNameUsesAndSentValues\<close> lists the pairs that
  \<open>operateOnScopeNameUsesAndSentValues\<close> hands to its callback.
\<close>

record Env =
  exprs :: Arena
  getParent :: "ExpressionRef \<Rightarrow> ExpressionRef option"
  getSetInfluences :: "ExpressionRef \<Rightarrow> ExpressionRef list"
  getSets :: "ExpressionRef \<Rightarrow> ExpressionRef option list"
  getTarget :: "Name \<Rightarrow> ExpressionRef"
  getBranches :: "Name \<Rightarrow> ExpressionRef list"
  getImmediateFallthrough :: "ExpressionRef \<Rightarrow> ExpressionRef"
  getDefinedName :: "ExpressionRef \<Rightarrow> Name"
  getSentValue :: "ExpressionRef \<Rightarrow> ExpressionRef option"
  scopeNameUsesAndSentValues :: "ExpressionRef \<Rightarrow> (Name \<times> ExpressionRef option) list"
  isSubType :: "Type \<Rightarrow> Type \<Rightarrow> bool"

record Checker =
  allocation :: ExpressionRef
  child :: ExpressionRef
  escapes :: bool
  fullyConsumes :: bool

text \<open>
  \<open>Checker::visit\<close>: the visitor dispatches on the class of the parent; a class
  without a \<open>visit*\<close> method (among them \<open>If\<close>) leaves the checker as it was
  initialised, that is, escaping.
\<close>

definition Checker_visit :: "Env \<Rightarrow> Checker \<Rightarrow> Expression \<Rightarrow> Checker" where
  "Checker_visit env c cur =
    (case kind cur of
       Block n l \<Rightarrow> c\<lparr>escapes := False\<rparr>
     | Loop n b \<Rightarrow> c\<lparr>escapes := False\<rparr>
     | Drop v \<Rightarrow> c\<lparr>escapes := False, fullyConsumes := True\<rparr>
     | Break n v cond \<Rightarrow> c\<lparr>escapes := False\<rparr>
     | Switch ts d v cond \<Rightarrow> c\<lparr>escapes := False\<rparr>
     | LocalGet i \<Rightarrow> c\<lparr>escapes := False\<rparr>
     | LocalSet i v t \<Rightarrow> c\<lparr>escapes := False\<rparr>
     | RefIsNull v \<Rightarrow> c\<lparr>escapes := False, fullyConsumes := True\<rparr>
     | RefEq l r \<Rightarrow> c\<lparr>escapes := False, fullyConsumes := True\<rparr>
     | RefAs op v \<Rightarrow> (if op = RefAsNonNull then c\<lparr>escapes := False\<rparr> else c)
     | RefTest r t \<Rightarrow> c\<lparr>escapes := False, fullyConsumes := True\<rparr>
     | RefCast r d \<Rightarrow>
         (if r = child c
          then (if \<not> isSubType env (type (exprs env (allocation c))) (type cur)
                then c\<lparr>escapes := False, fullyConsumes := True\<rparr>
                else c\<lparr>escapes := False\<rparr>)
          else c\<lparr>escapes := False, fullyConsumes := True\<rparr>)
     | RefGetDesc r \<Rightarrow> c\<lparr>escapes := False, fullyConsumes := True\<rparr>
     | StructSet i r v \<Rightarrow>
         (if r = child c then c\<lparr>escapes := False, fullyConsumes := True\<rparr> else c)
     | StructGet i r s \<Rightarrow> c\<lparr>escapes := False, fullyConsumes := True\<rparr>
     | StructRMW op i r v \<Rightarrow>
         (if r = child c then c\<lparr>escapes := False, fullyConsumes := True\<rparr> else c)
     | StructCmpxchg i r e rep \<Rightarrow>
         (if r = child c \<or> e = child c
          then c\<lparr>escapes := False, fullyConsumes := True\<rparr> else c)
     | ArraySet r i v \<Rightarrow>
         (if \<not> isConst (kind (exprs env i)) then c
          else if r = child c then c\<lparr>escapes := False, fullyConsumes := True\<rparr>
          else c)
     | ArrayGet r i s \<Rightarrow>
         (if \<not> isConst (kind (exprs env i)) then c
          else c\<lparr>escapes := False, fullyConsumes := True\<rparr>)
     | ArrayRMW op r i v \<Rightarrow>
         (if r = child c then c\<lparr>escapes := False, fullyConsumes := True\<rparr> else c)
     | ArrayCmpxchg r i e rep \<Rightarrow>
         (if r = child c \<or> e = child c
          then c\<lparr>escapes := False, fullyConsumes := True\<rparr> else c)
     | _ \<Rightarrow> c)"

text \<open>
  \<open>EscapeAnalyzer::getParentChildInteraction\<close>. \<open>list.back()\<close> of an arena vector
  asserts that the vector is not empty.
\<close>

definition getParentChildInteraction ::
  "Env \<Rightarrow> ExpressionRef \<Rightarrow> ExpressionRef option \<Rightarrow> ExpressionRef
     \<Rightarrow> error + ParentChildInteraction" where
  "getParentChildInteraction env alloc parent ch =
    (case parent of
       None \<Rightarrow> Inr Escapes
     | Some p \<Rightarrow>
        (let checker = Checker_visit env
               \<lparr>allocation = alloc, child = ch, escapes = True, fullyConsumes = False\<rparr>
               (exprs env p)
         in if escapes checker then Inr Escapes
            else if fullyConsumes checker \<or> \<not> isRef (type (exprs env p))
            then Inr FullyConsumes
            else if getImmediateFallthrough env p = ch then Inr Flows
            else (let branches = getBranches env (getDefinedName env p)
                  in if length branches = 1 \<and> getSentValue env (hd branches) = Some ch
                     then (case kind (exprs env p) of
                             Block n l \<Rightarrow>
                               (if l = [] then Inl AssertionFailed
                                else if type (exprs env (last l)) = unreachable
                                then Inr Flows else Inr Mixes)
                           | _ \<Rightarrow> Inr Mixes)
                     else Inr Mixes)))"


text \<open>
  \<open>EscapeAnalyzer::branchesSentByParent\<close>: the names on which the parent sends the
  child. The source collects them in a \<open>NameSet\<close>; the list has no duplicates and its
  order only decides the order of the queue.
\<close>

definition branchesSentByParent :: "Env \<Rightarrow> ExpressionRef \<Rightarrow> ExpressionRef \<Rightarrow> Name list" where
  "branchesSentByParent env ch parent =
    remdups (map fst (filter (\<lambda>(name, val). val = Some ch)
                             (scopeNameUsesAndSentValues env parent)))"

text \<open>
  Modelled from the spec: \<open>UniqueNonrepeatingDeferredQueue\<close> (its header is not among the
  sources), "an explicit worklist deduplicating visited (child, parent) pairs". \<open>push\<close>
  ignores an item that was popped before; \<open>pop\<close> skips an item that is queued again
  further back, returns the first one that is not, and marks it processed.
\<close>

type_synonym ChildAndParent = "ExpressionRef \<times> ExpressionRef option"

record FlowQueue =
  data :: "ChildAndParent list"
  processed :: "ChildAndParent set"

definition emptyQueue :: FlowQueue where
  "emptyQueue = \<lparr>data = [], processed = {}\<rparr>"

definition push :: "FlowQueue \<Rightarrow> ChildAndParent \<Rightarrow> FlowQueue" where
  "push q item = (if item \<in> processed q then q else q\<lparr>data := data q @ [item]\<rparr>)"

fun popData :: "'a list \<Rightarrow> ('a \<times> 'a list) option" where
  "popData [] = None"
| "popData (x # xs) = (if x \<in> set xs then popData xs else Some (x, xs))"

definition pop :: "FlowQueue \<Rightarrow> (ChildAndParent \<times> FlowQueue) option" where
  "pop q =
    (case popData (data q) of
       None \<Rightarrow> None
     | Some (item, rest) \<Rightarrow> Some (item, \<lparr>data = rest, processed = insert item (processed q)\<rparr>))"

text \<open>
  The mutable part of \<open>EscapeAnalyzer\<close>. \<open>sets\<close> is an unordered set in the source; it
  is kept as a list without duplicates so that it can be iterated.
\<close>

record EscapeAnalyzer =
  sets :: "ExpressionRef list"
  reachedInteractions :: "ExpressionRef \<rightharpoonup> ParentChildInteraction"

definition newEscapeAnalyzer :: EscapeAnalyzer where
  "newEscapeAnalyzer = \<lparr>sets = [], reachedInteractions = Map.empty\<rparr>"

datatype LoopStep = ReturnTrue | Continue FlowQueue EscapeAnalyzer

text \<open>
  One iteration of the \<open>while\<close> loop of \<open>escapes\<close>, after the pop. A null parent
  never gets past the first test, since its interaction is \<open>Escapes\<close>.
\<close>

definition flowStep ::
  "Env \<Rightarrow> ExpressionRef \<Rightarrow> ChildAndParent \<Rightarrow> FlowQueue \<Rightarrow> EscapeAnalyzer \<Rightarrow> error + LoopStep" where
  "flowStep env alloc flow flows a =
    (let ch = fst flow; parent = snd flow
     in case getParentChildInteraction env alloc parent ch of
          Inl e \<Rightarrow> Inl e
        | Inr interaction \<Rightarrow>
            if interaction = Escapes \<or> interaction = Mixes then Inr ReturnTrue
            else if \<not> (interaction = FullyConsumes \<or> interaction = Flows)
            then Inl AssertionFailed
            else (case parent of
                    None \<Rightarrow> Inl NullDereference
                  | Some p \<Rightarrow>
                     (let flows1 = (if interaction = Flows
                                    then push flows (p, getParent env p) else flows);
                          a1 = (case kind (exprs env p) of
                                  LocalSet i v t \<Rightarrow> a\<lparr>sets := List.insert p (sets a)\<rparr>
                                | _ \<Rightarrow> a);
                          flows2 = (case kind (exprs env p) of
                                      LocalSet i v t \<Rightarrow>
                                        fold (\<lambda>get q. push q (get, getParent env get))
                                             (getSetInfluences env p) flows1
                                    | _ \<Rightarrow> flows1);
                          flows3 = fold (\<lambda>name q. push q (ch, Some (getTarget env name)))
                                        (branchesSentByParent env ch p) flows2;
                          a2 = a1\<lparr>reachedInteractions :=
                                    (reachedInteractions a1)(ch \<mapsto> Flows, p \<mapsto> interaction)\<rparr>
                      in Inr (Continue flows3 a2))))"

text \<open>
  The \<open>while (!flows.empty())\<close> loop. The result says whether the loop was left by
  \<open>return true\<close>, and holds the queue and the analyzer as they were then.
\<close>

partial_function (option) flowLoop ::
  "Env \<Rightarrow> ExpressionRef \<Rightarrow> FlowQueue \<Rightarrow> EscapeAnalyzer
     \<Rightarrow> (error + bool \<times> FlowQueue \<times> EscapeAnalyzer) option" where
  "flowLoop env alloc flows a =
    (if data flows = [] then Some (Inr (False, flows, a))
     else (case pop flows of
             None \<Rightarrow> Some (Inl AssertionFailed)
           | Some (flow, flows') \<Rightarrow>
              (case flowStep env alloc flow flows' a of
                 Inl e \<Rightarrow> Some (Inl e)
               | Inr ReturnTrue \<Rightarrow> Some (Inr (True, flows', a))
               | Inr (Continue flows'' a') \<Rightarrow> flowLoop env alloc flows'' a')))"

text \<open>\<open>EscapeAnalyzer::getsAreExclusiveToSets\<close>. A null set is never in \<open>sets\<close>.\<close>

definition getsAreExclusiveToSets :: "Env \<Rightarrow> EscapeAnalyzer \<Rightarrow> bool" where
  "getsAreExclusiveToSets env a =
    (let gets = fold (\<lambda>s gs. fold List.insert (getSetInfluences env s) gs) (sets a) []
     in list_all (\<lambda>get. list_all (\<lambda>s. case s of None \<Rightarrow> False
                                              | Some s' \<Rightarrow> s' \<in> set (sets a))
                                    (getSets env get)) gets)"

text \<open>
  \<open>EscapeAnalyzer::escapes\<close>, on an analyzer \<open>a\<close>. The queue is a local variable of
  the source; its final value is returned with the result, so that the pairs the walk
  visited can be named.
\<close>

definition EscapeAnalyzer_escapes ::
  "Env \<Rightarrow> EscapeAnalyzer \<Rightarrow> ExpressionRef
     \<Rightarrow> (error + bool \<times> FlowQueue \<times> EscapeAnalyzer) option" where
  "EscapeAnalyzer_escapes env a alloc =
    (case flowLoop env alloc (push emptyQueue (alloc, getParent env alloc)) a of
       None \<Rightarrow> None
     | Some (Inl e) \<Rightarrow> Some (Inl e)
     | Some (Inr (returned, flows, a')) \<Rightarrow>
         if returned then Some (Inr (True, flows, a'))
         else if \<not> getsAreExclusiveToSets env a' then Some (Inr (True, flows, a'))
         else Some (Inr (False, flows, a')))"

definition getInteraction :: "EscapeAnalyzer \<Rightarrow> ExpressionRef \<Rightarrow> ParentChildInteraction" where
  "getInteraction a cur =
    (case reachedInteractions a cur of None \<Rightarrow> NoInteraction | Some i \<Rightarrow> i)"


section \<open>Outlining\<close>

text \<open>
  A \<open>RepeatedSubstring\<close> of the suffix tree, and the stages of \<open>StringifyProcessor\<close>.
  The stages are not part of the sources; \<open>Outlining::run\<close> is modelled over any six
  of them.
\<close>

record RepeatedSubstring =
  Length :: nat
  StartIndices :: "nat list"

type_synonym Substrings = "RepeatedSubstring list"

record StringifyProcessor =
  repeatSubstrings :: "32 word list \<Rightarrow> Substrings"
  dedupe :: "Substrings \<Rightarrow> Substrings"
  filterOverlaps :: "Substrings \<Rightarrow> Substrings"
  filterBranches :: "Substrings \<Rightarrow> ExpressionRef option list \<Rightarrow> Substrings"
  filterLocalSets :: "Substrings \<Rightarrow> ExpressionRef option list \<Rightarrow> Substrings"
  filterLocalGets :: "Substrings \<Rightarrow> ExpressionRef option list \<Rightarrow> Substrings"

text \<open>
  \<open>Outlining::run\<close>, from the hash string of the module to the value of
  \<open>substrings\<close> that is handed to \<open>makeSequences\<close>: the local variable is assigned
  six times, each time from its previous value.
\<close>

definition Outlining_run_substrings ::
  "StringifyProcessor \<Rightarrow> 32 word list \<Rightarrow> ExpressionRef option list \<Rightarrow> Substrings" where
  "Outlining_run_substrings P hashString exprs' =
    (let substrings = repeatSubstrings P hashString;
         substrings = dedupe P substrings;
         substrings = filterOverlaps P substrings;
         substrings = filterBranches P substrings exprs';
         substrings = filterLocalSets P substrings exprs';
         substrings = filterLocalGets P substrings exprs'
     in substrings)"

datatype ReconstructState = NotInSeq | InSeq | InSkipSeq

record OutliningSequence =
  startIdx :: "32 word"
  endIdx :: "32 word"
  func :: Name
  endsTypeUnreachable :: bool

text \<open>
  \<open>IRBuilder\<close> is not part of the sources: a builder is a value of any type \<open>'b\<close>, and
  the two methods that matter at the end of a sequence are parameters. Each returns
  the new builder or an error message; \<open>ASSERT_OK\<close> turns the message into \<open>Fatal()\<close>.
\<close>

record 'b IRBuilderOps =
  visitEnd :: "'b \<Rightarrow> string + 'b"
  build :: "'b \<Rightarrow> string + 'b"

record 'b ReconstructStringifyWalker =
  state :: ReconstructState
  sequences :: "OutliningSequence list"
  seqCounter :: "32 word"
  instrCounter :: "32 word"
  existingBuilder :: 'b
  outlinedBuilder :: 'b

text \<open>\<open>ReconstructStringifyWalker::transitionToNotInSeq\<close>.\<close>

definition transitionToNotInSeq ::
  "'b IRBuilderOps \<Rightarrow> 'b ReconstructStringifyWalker \<Rightarrow> error + 'b ReconstructStringifyWalker" where
  "transitionToNotInSeq ops w =
    (case (if state w = InSeq then visitEnd ops (outlinedBuilder w)
           else Inr (outlinedBuilder w)) of
       Inl msg \<Rightarrow> Inl (Fatal msg)
     | Inr b \<Rightarrow> Inr (w\<lparr>outlinedBuilder := b, seqCounter := seqCounter w + 1\<rparr>))"

text \<open>
  \<open>ReconstructStringifyWalker::maybeEndSeq\<close>. The counters are \<open>uint32_t\<close>, so
  \<open>instrCounter + 1\<close> wraps; \<open>sequences[seqCounter]\<close> past the end is undefined.
\<close>

definition maybeEndSeq ::
  "'b IRBuilderOps \<Rightarrow> 'b ReconstructStringifyWalker \<Rightarrow> error + 'b ReconstructStringifyWalker" where
  "maybeEndSeq ops w =
    (if unat (seqCounter w) \<ge> length (sequences w) then Inl OutOfBounds
     else if instrCounter w + 1 = endIdx (sequences w ! unat (seqCounter w))
     then (case transitionToNotInSeq ops w of
             Inl e \<Rightarrow> Inl e
           | Inr w' \<Rightarrow> Inr (w'\<lparr>state := NotInSeq\<rparr>))
     else Inr w)"

text \<open>
  \<open>Outlining::moveOutlinedFunctions\<close> on the vector \<open>module->functions\<close>. An element
  is a \<open>unique_ptr\<close>: it is \<open>None\<close> once it has been moved from. \<open>temp\<close> takes the last
  \<open>outlinedCount\<close> elements, \<open>insert\<close> puts them in front, and \<open>resize(count)\<close> cuts
  the vector back to its length. An \<open>outlinedCount\<close> beyond the length makes the
  iterator arithmetic undefined.
\<close>

definition moveOutlinedFunctions :: "'f option list \<Rightarrow> nat \<Rightarrow> error + 'f option list" where
  "moveOutlinedFunctions functions outlinedCount =
    (let count = length functions
     in if outlinedCount > count then Inl OutOfBounds
        else (let temp = drop (count - outlinedCount) functions;
                  functions1 = take (count - outlinedCount) functions
                                 @ replicate outlinedCount None;
                  functions2 = temp @ functions1;
                  functions3 = take count functions2
                                 @ replicate (count - length functions2) None
              in Inr functions3))"


section \<open>Heap2Local: building and replacing expressions\<close>

text \<open>
  Modelled from the spec: the \<open>Builder\<close> interface consumed by Heap2Local (its header
  is not among the sources), "constructors for block, drop, local.set, local.get,
  const, ref.null, ref.as, sequence, ..., struct.set, struct.get, and an
  \<open>addVar(func, type)\<close> producing a fresh local index". A constructor allocates one new
  node at the next free address of the module's allocator and types it from its
  children; \<open>makeRefNull\<close> yields "a typed null reference" of the heap type it is given.
\<close>

record Store =
  arena :: Arena
  fresh :: ExpressionRef

definition allocate :: "Store \<Rightarrow> Expression \<Rightarrow> ExpressionRef \<times> Store" where
  "allocate st e = (fresh st, \<lparr>arena = (arena st)(fresh st := e), fresh = Suc (fresh st)\<rparr>)"

record Function =
  params :: "Type list"
  vars :: "Type list"
  body :: ExpressionRef

definition addVar :: "Function \<Rightarrow> Type \<Rightarrow> Index \<times> Function" where
  "addVar f t = (length (params f) + length (vars f), f\<lparr>vars := vars f @ [t]\<rparr>)"

fun addVars :: "Function \<Rightarrow> Type list \<Rightarrow> Index list \<times> Function" where
  "addVars f [] = ([], f)"
| "addVars f (t # ts) =
    (case addVar f t of (i, f1) \<Rightarrow>
       case addVars f1 ts of (ixs, f2) \<Rightarrow> (i # ixs, f2))"

definition makeDrop :: "ExpressionRef \<Rightarrow> Store \<Rightarrow> ExpressionRef \<times> Store" where
  "makeDrop v st = allocate st
     \<lparr>kind = Drop v,
      type = (if type (arena st v) = unreachable then unreachable else none)\<rparr>"

definition makeLocalSet :: "Index \<Rightarrow> ExpressionRef \<Rightarrow> Store \<Rightarrow> ExpressionRef \<times> Store" where
  "makeLocalSet i v st = allocate st
     \<lparr>kind = LocalSet i v False,
      type = (if type (arena st v) = unreachable then unreachable else none)\<rparr>"

definition makeLocalGet :: "Index \<Rightarrow> Type \<Rightarrow> Store \<Rightarrow> ExpressionRef \<times> Store" where
  "makeLocalGet i t st = allocate st \<lparr>kind = LocalGet i, type = t\<rparr>"

definition makeConst :: "Literal \<Rightarrow> Store \<Rightarrow> ExpressionRef \<times> Store" where
  "makeConst l st = allocate st \<lparr>kind = Const l, type = literalType l\<rparr>"

definition makeRefNull :: "HeapType \<Rightarrow> Store \<Rightarrow> ExpressionRef \<times> Store" where
  "makeRefNull h st = allocate st \<lparr>kind = RefNull, type = Ref h Nullable\<rparr>"

definition makeConstantExpression :: "Literal \<Rightarrow> Store \<Rightarrow> ExpressionRef \<times> Store" where
  "makeConstantExpression l st =
    (case l of LitNull h \<Rightarrow> makeRefNull h st | _ \<Rightarrow> makeConst l st)"

definition makeRefAs :: "RefAsOp \<Rightarrow> ExpressionRef \<Rightarrow> Store \<Rightarrow> ExpressionRef \<times> Store" where
  "makeRefAs op v st = allocate st
     \<lparr>kind = RefAs op v,
      type = (case type (arena st v) of
                Ref h n \<Rightarrow> (if op = RefAsNonNull then Ref h NonNullable else Ref h n)
              | t \<Rightarrow> t)\<rparr>"

definition makeUnreachable :: "Store \<Rightarrow> ExpressionRef \<times> Store" where
  "makeUnreachable st = allocate st \<lparr>kind = Unreachable, type = unreachable\<rparr>"

definition blockType :: "Arena \<Rightarrow> ExpressionRef list \<Rightarrow> Type" where
  "blockType ar items =
    (if items = [] then none
     else (let t = type (ar (last items))
           in if t = none \<and> list_ex (\<lambda>x. type (ar x) = unreachable) items
              then unreachable else t))"

definition makeBlock :: "ExpressionRef list \<Rightarrow> Store \<Rightarrow> ExpressionRef \<times> Store" where
  "makeBlock items st = allocate st
     \<lparr>kind = Block [] items, type = blockType (arena st) items\<rparr>"

definition makeSequence :: "ExpressionRef \<Rightarrow> ExpressionRef \<Rightarrow> Store \<Rightarrow> ExpressionRef \<times> Store" where
  "makeSequence l r st = makeBlock [l, r] st"

definition makeStructSet ::
  "Index \<Rightarrow> ExpressionRef \<Rightarrow> ExpressionRef \<Rightarrow> Store \<Rightarrow> ExpressionRef \<times> Store" where
  "makeStructSet i r v st = allocate st
     \<lparr>kind = StructSet i r v,
      type = (if type (arena st r) = unreachable \<or> type (arena st v) = unreachable
              then unreachable else none)\<rparr>"

definition makeStructGet ::
  "Index \<Rightarrow> ExpressionRef \<Rightarrow> Type \<Rightarrow> bool \<Rightarrow> Store \<Rightarrow> ExpressionRef \<times> Store" where
  "makeStructGet i r t sg st = allocate st
     \<lparr>kind = StructGet i r sg,
      type = (if type (arena st r) = unreachable then unreachable else t)\<rparr>"

text \<open>A \<open>for\<close> loop that builds one expression per element and collects them.\<close>

fun buildEach ::
  "('a \<Rightarrow> Store \<Rightarrow> ExpressionRef \<times> Store) \<Rightarrow> 'a list \<Rightarrow> Store \<Rightarrow> ExpressionRef list \<times> Store" where
  "buildEach f [] st = ([], st)"
| "buildEach f (x # xs) st =
    (case f x st of (e, st1) \<Rightarrow>
       case buildEach f xs st1 of (es, st2) \<Rightarrow> (e # es, st2))"

text \<open>\<open>EscapeAnalyzer::applyOldInteractionToReplacement\<close>.\<close>

definition applyOldInteractionToReplacement ::
  "EscapeAnalyzer \<Rightarrow> Arena \<Rightarrow> ExpressionRef \<Rightarrow> ExpressionRef \<Rightarrow> error + EscapeAnalyzer" where
  "applyOldInteractionToReplacement a ar old rep =
    (case reachedInteractions a old of
       None \<Rightarrow> Inl AssertionFailed
     | Some i \<Rightarrow>
         if type (ar rep) \<noteq> unreachable
         then Inr (a\<lparr>reachedInteractions := (reachedInteractions a)(rep \<mapsto> i)\<rparr>)
         else Inr a)"

text \<open>
  What \<open>Struct2Local\<close> and \<open>Array2Struct\<close> share: the allocation, the analyzer, the
  function, the module's allocator behind the builder, the \<open>refinalize\<close> flag, and the
  slot the walker is at (\<open>current\<close> is \<open>*currp\<close>, what \<open>getCurrent()\<close> returns and
  \<open>replaceCurrent\<close> overwrites).
\<close>

record Rewriter =
  allocation :: ExpressionRef
  analyzer :: EscapeAnalyzer
  func :: Function
  store :: Store
  refinalize :: bool
  current :: ExpressionRef

definition replaceCurrent :: "'a Rewriter_scheme \<Rightarrow> ExpressionRef \<Rightarrow> error + 'a Rewriter_scheme" where
  "replaceCurrent s expression =
    (case applyOldInteractionToReplacement (analyzer s) (arena (store s)) (current s) expression of
       Inl e \<Rightarrow> Inl e
     | Inr a \<Rightarrow> Inr (s\<lparr>analyzer := a, current := expression\<rparr>))"


section \<open>Heap2Local: Struct2Local\<close>

text \<open>\<open>fieldList\<close> is the member \<open>fields\<close>: it holds the types of the fields of the allocation's struct type.\<close>

record Struct2Local = Rewriter +
  fieldList :: "Type list"
  localIndexes :: "Index list"

text \<open>
  The constructor of \<open>Struct2Local\<close>, up to the walk: one local per field, and one
  more for the descriptor.
\<close>

definition newStruct2Local ::
  "ExpressionRef \<Rightarrow> EscapeAnalyzer \<Rightarrow> Function \<Rightarrow> Store \<Rightarrow> Type list \<Rightarrow> error + Struct2Local" where
  "newStruct2Local alloc an f st flds =
    (case kind (arena st alloc) of
       StructNew operands desc \<Rightarrow>
         (case addVars f flds of (ixs, f1) \<Rightarrow>
            case (case desc of None \<Rightarrow> ([], f1)
                  | Some d \<Rightarrow> addVars f1 [type (arena st d)]) of (dixs, f2) \<Rightarrow>
              Inr \<lparr>allocation = alloc, analyzer = an, func = f2, store = st,
                   refinalize = False, current = body f,
                   fieldList = flds, localIndexes = ixs @ dixs\<rparr>)
     | _ \<Rightarrow> Inl AssertionFailed)"

text \<open>
  \<open>Struct2Local::visitStructNew\<close>, in the stages its comments name.
  \<open>isWithDefault()\<close> is \<open>operands.empty()\<close>; \<open>operands[i]\<close> of an arena vector
  asserts that \<open>i\<close> is in range, and \<open>getHeapType()\<close> that the type is a reference.
  \<open>localIndexes\<close> has one entry per field, and one more with a descriptor, when it
  comes from the constructor; the model stops where the source would read past its end.

  "Create the temp variables": one per field unless the allocation is with defaults,
  and one for the descriptor.
\<close>

definition createTemps ::
  "Function \<Rightarrow> bool \<Rightarrow> Type list \<Rightarrow> Type option \<Rightarrow> Index list \<times> Function" where
  "createTemps f withDefault flds descType =
    (case (if withDefault then ([], f) else addVars f flds) of
     (fieldTemps, f1) \<Rightarrow>
     case (case descType of None \<Rightarrow> ([], f1) | Some t \<Rightarrow> addVars f1 [t]) of
     (descTemps, f2) \<Rightarrow> (fieldTemps @ descTemps, f2))"

text \<open>"Store the initial values into the temp locals."\<close>

definition storeTemps ::
  "bool \<Rightarrow> nat \<Rightarrow> Index list \<Rightarrow> ExpressionRef list \<Rightarrow> Store \<Rightarrow> ExpressionRef list \<times> Store" where
  "storeTemps withDefault n tempIndexes operands st =
    (if withDefault then ([], st)
     else buildEach (\<lambda>i. makeLocalSet (tempIndexes ! i) (operands ! i)) [0..<n] st)"

text \<open>"Preserve the trapping on null descriptors by inserting a ref.as_non_null."\<close>

definition storeDescTemp ::
  "ExpressionRef option \<Rightarrow> Index \<Rightarrow> Store \<Rightarrow> ExpressionRef list \<times> Store" where
  "storeDescTemp desc tempIndex st =
    (case desc of
       None \<Rightarrow> ([], st)
     | Some d \<Rightarrow>
        (case (if isNullable (type (arena st d))
               then makeRefAs RefAsNonNull d st else (d, st)) of
         (dv, sta) \<Rightarrow>
         case makeLocalSet tempIndex dv sta of
         (ls, stb) \<Rightarrow> ([ls], stb)))"

text \<open>"Store the values into the locals representing the fields."\<close>

definition storeFieldLocals ::
  "bool \<Rightarrow> Type list \<Rightarrow> Index list \<Rightarrow> Index list \<Rightarrow> Store \<Rightarrow> ExpressionRef list \<times> Store" where
  "storeFieldLocals withDefault flds tempIndexes locals st =
    buildEach
      (\<lambda>i st. case (if withDefault
                     then makeConstantExpression (makeZero (flds ! i)) st
                     else makeLocalGet (tempIndexes ! i) (flds ! i) st) of
                (val, st') \<Rightarrow> makeLocalSet (locals ! i) val st')
      [0..<length flds] st"

definition storeDescLocal ::
  "ExpressionRef option \<Rightarrow> Index \<Rightarrow> Index \<Rightarrow> Store \<Rightarrow> ExpressionRef list \<times> Store" where
  "storeDescLocal desc tempIndex localIndex st =
    (case desc of
       None \<Rightarrow> ([], st)
     | Some d \<Rightarrow>
        (case makeLocalGet tempIndex (type (arena st d)) st of
         (val, sta) \<Rightarrow>
         case makeLocalSet localIndex val sta of
         (ls, stb) \<Rightarrow> ([ls], stb)))"

definition Struct2Local_visitStructNew :: "Struct2Local \<Rightarrow> ExpressionRef \<Rightarrow> error + Struct2Local" where
  "Struct2Local_visitStructNew s cur =
    (if cur \<noteq> allocation s then Inr s
     else case kind (arena (store s) cur) of
       StructNew operands desc \<Rightarrow>
        (let withDefault = (operands = []);
             n = length (fieldList s);
             hasDesc = (desc \<noteq> None);
             numTemps = (if withDefault then 0 else n) + (if hasDesc then 1 else 0)
         in case createTemps (func s) withDefault (fieldList s)
                   (map_option (\<lambda>d. type (arena (store s) d)) desc) of
            (tempIndexes, f2) \<Rightarrow>
              if \<not> withDefault \<and> length operands < n then Inl AssertionFailed
              else if length (localIndexes s) < n + (if hasDesc then 1 else 0)
              then Inl OutOfBounds
              else case getHeapType (type (arena (store s) (allocation s))) of
                None \<Rightarrow> Inl AssertionFailed
              | Some heapType \<Rightarrow>
                (case storeTemps withDefault n tempIndexes operands (store s) of
                 (c1, st1) \<Rightarrow>
                 case storeDescTemp desc (tempIndexes ! (numTemps - 1)) st1 of
                 (c2, st2) \<Rightarrow>
                 case storeFieldLocals withDefault (fieldList s) tempIndexes
                        (localIndexes s) st2 of
                 (c3, st3) \<Rightarrow>
                 case storeDescLocal desc (tempIndexes ! (numTemps - 1))
                        (localIndexes s ! n) st3 of
                 (c4, st4) \<Rightarrow>
                 case makeRefNull heapType st4 of
                 (nul, st5) \<Rightarrow>
                 case makeBlock (c1 @ c2 @ c3 @ c4 @ [nul]) st5 of
                 (blk, st6) \<Rightarrow> replaceCurrent (s\<lparr>func := f2, store := st6\<rparr>) blk))
     | _ \<Rightarrow> Inl AssertionFailed)"

text \<open>\<open>Struct2Local::visitRefEq\<close>.\<close>

definition Struct2Local_visitRefEq :: "Struct2Local \<Rightarrow> ExpressionRef \<Rightarrow> error + Struct2Local" where
  "Struct2Local_visitRefEq s cur =
    (if getInteraction (analyzer s) cur = NoInteraction then Inr s
     else if type (arena (store s) cur) = unreachable then Inr s
     else case kind (arena (store s) cur) of
       RefEq left right \<Rightarrow>
        (let result = (getInteraction (analyzer s) left = Flows \<and>
                       getInteraction (analyzer s) right = Flows)
         in case makeDrop left (store s) of
            (d1, st1) \<Rightarrow>
            case makeDrop right st1 of
            (d2, st2) \<Rightarrow>
            case makeConst (LitI32 (if result then 1 else 0)) st2 of
            (c, st3) \<Rightarrow>
            case makeBlock [d1, d2, c] st3 of
            (blk, st4) \<Rightarrow> replaceCurrent (s\<lparr>store := st4\<rparr>) blk)
     | _ \<Rightarrow> Inl AssertionFailed)"


section \<open>Heap2Local: Array2Struct\<close>

record Array2Struct = Rewriter +
  originalType :: Type
  structType :: HeapType
  numFields :: Index
  structNew :: ExpressionRef
  arrayNewReplacement :: ExpressionRef

text \<open>
  \<open>Array2Struct::getIndex\<close>: \<open>cast<Const>()\<close> asserts the class, and \<open>getUnsigned\<close>
  is only defined on integer literals.
\<close>

definition getIndex :: "Arena \<Rightarrow> ExpressionRef \<Rightarrow> error + Index" where
  "getIndex ar cur =
    (case kind (ar cur) of
       Const l \<Rightarrow> (case getUnsigned l of None \<Rightarrow> Inl WasmUnreachable | Some n \<Rightarrow> Inr n)
     | _ \<Rightarrow> Inl AssertionFailed)"

definition getArrayNewSize :: "Arena \<Rightarrow> ExpressionRef \<Rightarrow> error + Index" where
  "getArrayNewSize ar alloc =
    (case kind (ar alloc) of
       ArrayNew sz init \<Rightarrow> getIndex ar sz
     | ArrayNewFixed values \<Rightarrow> Inr (length values)
     | _ \<Rightarrow> Inl WasmUnreachable)"

text \<open>\<open>Array2Struct::visitArraySet\<close> and \<open>Array2Struct::visitArrayGet\<close>.\<close>

definition Array2Struct_visitArraySet :: "Array2Struct \<Rightarrow> ExpressionRef \<Rightarrow> error + Array2Struct" where
  "Array2Struct_visitArraySet s cur =
    (if getInteraction (analyzer s) cur = NoInteraction then Inr s
     else case kind (arena (store s) cur) of
       ArraySet ref index val \<Rightarrow>
        (case getIndex (arena (store s)) index of
           Inl e \<Rightarrow> Inl e
         | Inr idx \<Rightarrow>
            if idx \<ge> numFields s
            then (case makeDrop ref (store s) of
                  (d1, st1) \<Rightarrow>
                  case makeDrop val st1 of
                  (d2, st2) \<Rightarrow>
                  case makeUnreachable st2 of
                  (u, st3) \<Rightarrow>
                  case makeBlock [d1, d2, u] st3 of
                  (blk, st4) \<Rightarrow>
                  (case replaceCurrent (s\<lparr>store := st4\<rparr>) blk of
                     Inl e \<Rightarrow> Inl e
                   | Inr s' \<Rightarrow> Inr (s'\<lparr>refinalize := True\<rparr>)))
            else (case makeStructSet idx ref val (store s) of
                  (ss, st1) \<Rightarrow> replaceCurrent (s\<lparr>store := st1\<rparr>) ss))
     | _ \<Rightarrow> Inl AssertionFailed)"

definition Array2Struct_visitArrayGet :: "Array2Struct \<Rightarrow> ExpressionRef \<Rightarrow> error + Array2Struct" where
  "Array2Struct_visitArrayGet s cur =
    (if getInteraction (analyzer s) cur = NoInteraction then Inr s
     else case kind (arena (store s) cur) of
       ArrayGet ref index sg \<Rightarrow>
        (case getIndex (arena (store s)) index of
           Inl e \<Rightarrow> Inl e
         | Inr idx \<Rightarrow>
            if idx \<ge> numFields s
            then (case makeDrop ref (store s) of
                  (d, st1) \<Rightarrow>
                  case makeUnreachable st1 of
                  (u, st2) \<Rightarrow>
                  case makeSequence d u st2 of
                  (blk, st3) \<Rightarrow>
                  (case replaceCurrent (s\<lparr>store := st3\<rparr>) blk of
                     Inl e \<Rightarrow> Inl e
                   | Inr s' \<Rightarrow> Inr (s'\<lparr>refinalize := True\<rparr>)))
            else (case makeStructGet idx ref (type (arena (store s) cur)) sg (store s) of
                  (g, st1) \<Rightarrow> replaceCurrent (s\<lparr>store := st1\<rparr>) g))
     | _ \<Rightarrow> Inl AssertionFailed)"


section \<open>Heap2Local: finding the allocations\<close>

record AllocationFinder =
  structNews :: "ExpressionRef list"
  arrayNews :: "ExpressionRef list"
  hasPop :: bool

definition newAllocationFinder :: AllocationFinder where
  "newAllocationFinder = \<lparr>structNews = [], arrayNews = [], hasPop = False\<rparr>"

text \<open>The two overloads of \<open>AllocationFinder::isValidSize\<close>.\<close>

definition isValidSize :: "Index \<Rightarrow> bool" where
  "isValidSize n \<longleftrightarrow> n < 20"

definition isValidSizeExpr :: "Arena \<Rightarrow> ExpressionRef \<Rightarrow> error + bool" where
  "isValidSizeExpr ar sz =
    (case kind (ar sz) of
       Const l \<Rightarrow> (case getUnsigned l of
                     None \<Rightarrow> Inl WasmUnreachable
                   | Some n \<Rightarrow> Inr (isValidSize n))
     | _ \<Rightarrow> Inr False)"

text \<open>
  The \<open>visit*\<close> methods of \<open>AllocationFinder\<close>, behind the dispatch of the visitor on
  the class of the expression.
\<close>

definition AllocationFinder_visit ::
  "Arena \<Rightarrow> AllocationFinder \<Rightarrow> ExpressionRef \<Rightarrow> error + AllocationFinder" where
  "AllocationFinder_visit ar f cur =
    (case kind (ar cur) of
       StructNew operands desc \<Rightarrow>
         (if type (ar cur) \<noteq> unreachable
          then Inr (f\<lparr>structNews := structNews f @ [cur]\<rparr>) else Inr f)
     | ArrayNew sz init \<Rightarrow>
         (if type (ar cur) \<noteq> unreachable
          then (case isValidSizeExpr ar sz of
                  Inl e \<Rightarrow> Inl e
                | Inr ok \<Rightarrow> if ok then Inr (f\<lparr>arrayNews := arrayNews f @ [cur]\<rparr>) else Inr f)
          else Inr f)
     | ArrayNewFixed values \<Rightarrow>
         (if type (ar cur) \<noteq> unreachable \<and> isValidSize (length values)
          then Inr (f\<lparr>arrayNews := arrayNews f @ [cur]\<rparr>) else Inr f)
     | Pop \<Rightarrow> Inr (f\<lparr>hasPop := True\<rparr>)
     | _ \<Rightarrow> Inr f)"

text \<open>
  \<open>finder.walk(func->body)\<close>: the walker visits every expression of the body once, in
  post-order; the sequence of the expressions it visits is the parameter \<open>nodes\<close>.
\<close>

fun AllocationFinder_walk ::
  "Arena \<Rightarrow> AllocationFinder \<Rightarrow> ExpressionRef list \<Rightarrow> error + AllocationFinder" where
  "AllocationFinder_walk ar f [] = Inr f"
| "AllocationFinder_walk ar f (cur # nodes) =
    (case AllocationFinder_visit ar f cur of
       Inl e \<Rightarrow> Inl e
     | Inr f' \<Rightarrow> AllocationFinder_walk ar f' nodes)"


section \<open>Predicates of the proofs, and example programs\<close>

text \<open>
  The invariant of the worklist loop: every recorded interaction is \<open>Flows\<close> or
  \<open>FullyConsumes\<close>, and both ends of every pair that was popped are recorded.
\<close>

definition reachedOk :: "FlowQueue \<Rightarrow> EscapeAnalyzer \<Rightarrow> bool" where
  "reachedOk flows a \<longleftrightarrow>
     (\<forall>e i. reachedInteractions a e = Some i \<longrightarrow> i = Flows \<or> i = FullyConsumes) \<and>
     (\<forall>(c, p) \<in> processed flows. c \<in> dom (reachedInteractions a) \<and>
         (\<exists>q. p = Some q \<and> q \<in> dom (reachedInteractions a)))"

text \<open>
  A function body has finitely many expressions: the collaborators only return
  addresses below a bound \<open>N\<close>. Under this bound the worklist loop terminates.
\<close>

definition boundedEnv :: "Env \<Rightarrow> nat \<Rightarrow> bool" where
  "boundedEnv env N \<longleftrightarrow>
     (\<forall>e p. getParent env e = Some p \<longrightarrow> p < N) \<and>
     (\<forall>s. \<forall>g \<in> set (getSetInfluences env s). g < N) \<and>
     (\<forall>n. getTarget env n < N)"

definition flowUniverse :: "nat \<Rightarrow> ChildAndParent set" where
  "flowUniverse N = {..<N} \<times> insert None (Some ` {..<N})"

definition queueInv :: "nat \<Rightarrow> FlowQueue \<Rightarrow> bool" where
  "queueInv N q \<longleftrightarrow> set (data q) \<subseteq> flowUniverse N \<and> set (data q) \<inter> processed q = {}"

text \<open>The builder only adds nodes: what was allocated before stays as it was.\<close>

definition extends :: "Store \<Rightarrow> Store \<Rightarrow> bool" where
  "extends st st' \<longleftrightarrow> fresh st \<le> fresh st' \<and> (\<forall>x < fresh st. arena st' x = arena st x)"

text \<open>
  A struct that is written to a local and read back once:
  \<open>(block (local.set 0 (struct.new)) (drop (local.get 0)))\<close>.
\<close>

definition setGetArena :: Arena where
  "setGetArena = (\<lambda>_. \<lparr>kind = Unreachable, type = unreachable\<rparr>)
     (0 := \<lparr>kind = StructNew [] None, type = Ref 7 NonNullable\<rparr>,
      1 := \<lparr>kind = LocalSet 0 0 False, type = none\<rparr>,
      2 := \<lparr>kind = LocalGet 0, type = Ref 7 Nullable\<rparr>,
      3 := \<lparr>kind = Drop 2, type = none\<rparr>,
      4 := \<lparr>kind = Block [] [1, 3], type = none\<rparr>)"

definition setGetEnv :: Env where
  "setGetEnv = \<lparr>exprs = setGetArena,
     getParent = (\<lambda>_. None)(0 := Some 1, 1 := Some 4, 2 := Some 3, 3 := Some 4),
     getSetInfluences = (\<lambda>_. [])(1 := [2]),
     getSets = (\<lambda>_. [])(2 := [Some 1]),
     getTarget = (\<lambda>_. 4),
     getBranches = (\<lambda>_. []),
     getImmediateFallthrough = (\<lambda>e. e),
     getDefinedName = (\<lambda>_. []),
     getSentValue = (\<lambda>_. None),
     scopeNameUsesAndSentValues = (\<lambda>_. []),
     isSubType = (\<lambda>s t. s = t)\<rparr>"

text \<open>The same body in a function whose local may also hold its value at entry.\<close>

definition sharedGetEnv :: Env where
  "sharedGetEnv = setGetEnv\<lparr>getSets := (\<lambda>_. [])(2 := [Some 1, None])\<rparr>"

text \<open>
  A struct in an arm of an \<open>if\<close> of reference type:
  \<open>(if (result (ref null 7)) (i32.const 1) (struct.new) (ref.null))\<close>.
\<close>

definition ifArena :: Arena where
  "ifArena = (\<lambda>_. \<lparr>kind = Unreachable, type = unreachable\<rparr>)
     (0 := \<lparr>kind = StructNew [] None, type = Ref 7 NonNullable\<rparr>,
      1 := \<lparr>kind = Const (LitI32 1), type = i32\<rparr>,
      2 := \<lparr>kind = RefNull, type = Ref 7 Nullable\<rparr>,
      3 := \<lparr>kind = IfExpr 1 0 (Some 2), type = Ref 7 Nullable\<rparr>)"

definition ifEnv :: Env where
  "ifEnv = \<lparr>exprs = ifArena,
     getParent = (\<lambda>_. None)(0 := Some 3, 1 := Some 3, 2 := Some 3),
     getSetInfluences = (\<lambda>_. []),
     getSets = (\<lambda>_. []),
     getTarget = (\<lambda>_. 3),
     getBranches = (\<lambda>_. []),
     getImmediateFallthrough = (\<lambda>e. e),
     getDefinedName = (\<lambda>_. []),
     getSentValue = (\<lambda>_. None),
     scopeNameUsesAndSentValues = (\<lambda>_. []),
     isSubType = (\<lambda>s t. s = t)\<rparr>"

text \<open>
  A struct allocation with a field and a nullable descriptor, dropped:
  \<open>(drop (struct.new_desc (i32.const 42) (local.get 0)))\<close>, in a function whose
  local 0 holds the descriptor. The rewriter has one local for the field (1) and one
  for the descriptor (2), and its walker is at the allocation.
\<close>

definition descArena :: Arena where
  "descArena = (\<lambda>_. \<lparr>kind = Unreachable, type = unreachable\<rparr>)
     (0 := \<lparr>kind = LocalGet 0, type = Ref 9 Nullable\<rparr>,
      1 := \<lparr>kind = Const (LitI32 42), type = i32\<rparr>,
      2 := \<lparr>kind = StructNew [1] (Some 0), type = Ref 7 NonNullable\<rparr>,
      3 := \<lparr>kind = Drop 2, type = none\<rparr>)"

definition descState :: Struct2Local where
  "descState = \<lparr>allocation = 2,
     analyzer = \<lparr>sets = [], reachedInteractions = [2 \<mapsto> Flows, 3 \<mapsto> FullyConsumes]\<rparr>,
     func = \<lparr>params = [], vars = [Ref 9 Nullable, i32, Ref 9 Nullable], body = 3\<rparr>,
     store = \<lparr>arena = descArena, fresh = 4\<rparr>,
     refinalize = False, current = 2,
     fieldList = [i32], localIndexes = [1, 2]\<rparr>"

text \<open>
  Two comparisons of the allocation 5, which reaches both reads of local 0:
  \<open>(ref.eq (local.get 0) (local.get 0))\<close> and
  \<open>(ref.eq (local.get 0) (unreachable))\<close>, the second of type \<open>unreachable\<close>.
\<close>

definition refEqArena :: Arena where
  "refEqArena = (\<lambda>_. \<lparr>kind = Unreachable, type = unreachable\<rparr>)
     (0 := \<lparr>kind = LocalGet 0, type = Ref 7 Nullable\<rparr>,
      1 := \<lparr>kind = LocalGet 0, type = Ref 7 Nullable\<rparr>,
      2 := \<lparr>kind = RefEq 0 1, type = i32\<rparr>,
      3 := \<lparr>kind = Unreachable, type = unreachable\<rparr>,
      4 := \<lparr>kind = RefEq 0 3, type = unreachable\<rparr>,
      5 := \<lparr>kind = StructNew [] None, type = Ref 7 NonNullable\<rparr>)"

definition refEqState :: Struct2Local where
  "refEqState = \<lparr>allocation = 5,
     analyzer = \<lparr>sets = [],
        reachedInteractions = [5 \<mapsto> Flows, 0 \<mapsto> Flows, 1 \<mapsto> Flows,
                               2 \<mapsto> FullyConsumes, 4 \<mapsto> FullyConsumes]\<rparr>,
     func = \<lparr>params = [], vars = [Ref 7 Nullable], body = 2\<rparr>,
     store = \<lparr>arena = refEqArena, fresh = 6\<rparr>,
     refinalize = False, current = 2,
     fieldList = [], localIndexes = []\<rparr>"

text \<open>
  An array of four slots (6), read and written at index 5 through local 0:
  \<open>(array.get (local.get 0) (i32.const 5))\<close> and
  \<open>(array.set (local.get 0) (i32.const 5) (i32.const 9))\<close>. Node 7 is the
  \<open>struct.new\<close> that replaces the array.
\<close>

definition arrayArena :: Arena where
  "arrayArena = (\<lambda>_. \<lparr>kind = Unreachable, type = unreachable\<rparr>)
     (0 := \<lparr>kind = LocalGet 0, type = Ref 8 Nullable\<rparr>,
      1 := \<lparr>kind = Const (LitI32 5), type = i32\<rparr>,
      2 := \<lparr>kind = ArrayGet 0 1 False, type = i32\<rparr>,
      3 := \<lparr>kind = Const (LitI32 9), type = i32\<rparr>,
      4 := \<lparr>kind = ArraySet 0 1 3, type = none\<rparr>,
      5 := \<lparr>kind = Const (LitI32 4), type = i32\<rparr>,
      6 := \<lparr>kind = ArrayNew 5 None, type = Ref 8 NonNullable\<rparr>,
      7 := \<lparr>kind = StructNew [] None, type = Ref 20 NonNullable\<rparr>)"

definition arrayState :: Array2Struct where
  "arrayState = \<lparr>allocation = 6,
     analyzer = \<lparr>sets = [],
        reachedInteractions = [6 \<mapsto> Flows, 0 \<mapsto> Flows, 2 \<mapsto> FullyConsumes,
                               4 \<mapsto> FullyConsumes, 7 \<mapsto> Flows]\<rparr>,
     func = \<lparr>params = [], vars = [Ref 8 Nullable], body = 2\<rparr>,
     store = \<lparr>arena = arrayArena, fresh = 8\<rparr>,
     refinalize = False, current = 2,
     originalType = Ref 8 NonNullable, structType = 20, numFields = 4,
     structNew = 7, arrayNewReplacement = 7\<rparr>"

text \<open>
  Four array allocations: of constant size 3, of constant size 20, of a size read from
  a local, and an \<open>array.new_fixed\<close> of two values.
\<close>

definition finderArena :: Arena where
  "finderArena = (\<lambda>_. \<lparr>kind = Unreachable, type = unreachable\<rparr>)
     (0 := \<lparr>kind = Const (LitI32 3), type = i32\<rparr>,
      1 := \<lparr>kind = ArrayNew 0 None, type = Ref 8 NonNullable\<rparr>,
      2 := \<lparr>kind = Const (LitI32 20), type = i32\<rparr>,
      3 := \<lparr>kind = ArrayNew 2 None, type = Ref 8 NonNullable\<rparr>,
      4 := \<lparr>kind = LocalGet 0, type = i32\<rparr>,
      5 := \<lparr>kind = ArrayNew 4 None, type = Ref 8 NonNullable\<rparr>,
      6 := \<lparr>kind = ArrayNewFixed [0, 2], type = Ref 8 NonNullable\<rparr>)"

text \<open>
  A builder that records the calls it receives, and a walker inside the first
  occurrence of the sequence \<open>[2, 5)\<close>, at its last instruction.
\<close>

datatype IRBuilderCall = VisitEndCall | BuildCall

definition traceBuilder :: "IRBuilderCall list IRBuilderOps" where
  "traceBuilder = \<lparr>visitEnd = (\<lambda>b. Inr (b @ [VisitEndCall])),
                    build = (\<lambda>b. Inr (b @ [BuildCall]))\<rparr>"

definition inSeqWalker :: "IRBuilderCall list ReconstructStringifyWalker" where
  "inSeqWalker = \<lparr>state = InSeq,
     sequences = [\<lparr>startIdx = 2, endIdx = 5, func = ''outline$0'',
                   endsTypeUnreachable = False\<rparr>],
     seqCounter = 0, instrCounter = 4,
     existingBuilder = [], outlinedBuilder = []\<rparr>"



section \<open>The escape analysis: the worklist and its invariant\<close>

lemma processed_push [simp]: "processed (push q item) = processed q"
  by (simp add: push_def)

lemma processed_fold_push [simp]: "processed (fold (\<lambda>x q. push q (f x)) xs q) = processed q"
  by (induction xs arbitrary: q) simp_all

lemma processed_pop: "pop q = Some (item, q') \<Longrightarrow> processed q' = insert item (processed q)"
  by (auto simp: pop_def split: option.splits)

lemma reached_case_LocalSet [simp]:
  "reachedInteractions (case k of LocalSet i v t \<Rightarrow> a\<lparr>sets := f i v t\<rparr> | _ \<Rightarrow> a)
     = reachedInteractions a"
  by (cases k) simp_all

lemma processed_case_LocalSet [simp]:
  "processed (case k of LocalSet i v t \<Rightarrow> fold (\<lambda>x q. push q (f x)) xs q0 | _ \<Rightarrow> q0)
     = processed q0"
  by (cases k) simp_all

lemma data_push: "set (data q) \<subseteq> set (data (push q item))"
  by (auto simp: push_def)

lemma data_fold_push: "set (data q) \<subseteq> set (data (fold (\<lambda>x q. push q (f x)) xs q))"
proof (induction xs arbitrary: q)
  case Nil
  show ?case by simp
next
  case (Cons x xs)
  have "set (data q) \<subseteq> set (data (push q (f x)))" by (rule data_push)
  also have "\<dots> \<subseteq> set (data (fold (\<lambda>x q. push q (f x)) xs (push q (f x))))"
    by (rule Cons.IH)
  finally show ?case by simp
qed

lemma data_case_LocalSet:
  "set (data q0)
     \<subseteq> set (data (case k of LocalSet i v t \<Rightarrow> fold (\<lambda>x q. push q (f x)) xs q0 | _ \<Rightarrow> q0))"
  by (cases k) (simp_all add: data_fold_push)

lemma popData_None: "popData xs = None \<longleftrightarrow> xs = []"
  by (induction xs) auto

lemma popData_Some:
  "popData xs = Some (x, rest) \<Longrightarrow> set xs = insert x (set rest) \<and> x \<notin> set rest"
  by (induction xs) (auto split: if_splits)

lemma flowStep_Continue:
  assumes "flowStep env alloc flow flows a = Inr (Continue flows2 a2)"
  shows "processed flows2 = processed flows"
    and "\<exists>p i. snd flow = Some p \<and> (i = Flows \<or> i = FullyConsumes) \<and>
           reachedInteractions a2 = (reachedInteractions a)(fst flow \<mapsto> Flows, p \<mapsto> i)"
  using assms
  by (auto simp: flowStep_def Let_def split: sum.splits if_splits option.splits)

lemma flowStep_flows:
  assumes "flowStep env alloc flow flows a = Inr (Continue flows2 a2)"
  shows "\<exists>p q1. snd flow = Some p \<and> set (data flows) \<subseteq> set (data q1) \<and>
           flows2 = fold (\<lambda>name q. push q (fst flow, Some (getTarget env name)))
                      (branchesSentByParent env (fst flow) p)
                      (case kind (exprs env p) of
                         LocalSet i v t \<Rightarrow>
                           fold (\<lambda>get q. push q (get, getParent env get))
                                (getSetInfluences env p) q1
                       | _ \<Rightarrow> q1)"
  using assms data_push[of flows]
  by (auto simp: flowStep_def Let_def split: sum.splits if_splits option.splits)

lemma flowStep_data:
  assumes "flowStep env alloc flow flows a = Inr (Continue flows2 a2)"
  shows "set (data flows) \<subseteq> set (data flows2)"
proof -
  from flowStep_flows[OF assms] obtain p q1 where
    q1: "set (data flows) \<subseteq> set (data q1)"
    and f2: "flows2 = fold (\<lambda>name q. push q (fst flow, Some (getTarget env name)))
                      (branchesSentByParent env (fst flow) p)
                      (case kind (exprs env p) of
                         LocalSet i v t \<Rightarrow>
                           fold (\<lambda>get q. push q (get, getParent env get))
                                (getSetInfluences env p) q1
                       | _ \<Rightarrow> q1)"
    by blast
  note q1
  also have "set (data q1) \<subseteq> set (data (case kind (exprs env p) of
                         LocalSet i v t \<Rightarrow>
                           fold (\<lambda>get q. push q (get, getParent env get))
                                (getSetInfluences env p) q1
                       | _ \<Rightarrow> q1))"
    by (rule data_case_LocalSet)
  also have "\<dots> \<subseteq> set (data flows2)"
    unfolding f2 by (rule data_fold_push)
  finally show ?thesis .
qed

lemma reachedOk_step:
  assumes ok: "reachedOk flows a"
    and pop: "pop flows = Some (flow, flows1)"
    and step: "flowStep env alloc flow flows1 a = Inr (Continue flows2 a2)"
  shows "reachedOk flows2 a2"
proof -
  from flowStep_Continue[OF step] obtain p i where
    pr: "processed flows2 = processed flows1" and par: "snd flow = Some p"
    and i: "i = Flows \<or> i = FullyConsumes"
    and r: "reachedInteractions a2 = (reachedInteractions a)(fst flow \<mapsto> Flows, p \<mapsto> i)"
    by blast
  have pr2: "processed flows2 = insert flow (processed flows)"
    using pr processed_pop[OF pop] by simp
  have fl: "flow = (fst flow, Some p)" using par by (cases flow) simp
  show ?thesis
    unfolding reachedOk_def
  proof (intro conjI allI impI ballI)
    fix e j assume "reachedInteractions a2 e = Some j"
    then show "j = Flows \<or> j = FullyConsumes"
      using ok i unfolding reachedOk_def r by (auto split: if_splits)
  next
    fix x assume x: "x \<in> processed flows2"
    show "case x of (c, pa) \<Rightarrow> c \<in> dom (reachedInteractions a2) \<and>
            (\<exists>q. pa = Some q \<and> q \<in> dom (reachedInteractions a2))"
    proof (cases "x = flow")
      case True
      then show ?thesis using fl r by (cases x) auto
    next
      case False
      then have "x \<in> processed flows" using x pr2 by simp
      then show ?thesis using ok unfolding reachedOk_def r by (cases x) fastforce
    qed
  qed
qed

text \<open>
  When the loop is left with an empty queue, the invariant holds of the final state,
  and every pair that was queued or popped at any time has been popped.
\<close>

lemma flowLoop_drained:
  assumes "flowLoop env alloc flows a = Some r"
    and "r = Inr (False, flows', a')" and "reachedOk flows a"
  shows "reachedOk flows' a' \<and> set (data flows) \<union> processed flows \<subseteq> processed flows'"
  using assms(2,3)
proof (induction rule: flowLoop.raw_induct[OF _ assms(1)])
  case (1 loop env alloc flows a r)
  note IH = "1.IH" and body = "1.hyps" and res = "1.prems"(1) and ok = "1.prems"(2)
  show ?case
  proof (cases "data flows = []")
    case True
    then show ?thesis using body res ok by simp
  next
    case False
    from body False res obtain flow flows1 where pop: "pop flows = Some (flow, flows1)"
      by (cases "pop flows") auto
    from body False res pop obtain flows2 a2
      where step: "flowStep env alloc flow flows1 a = Inr (Continue flows2 a2)"
        and rec: "loop env alloc flows2 a2 = Some r"
      by (auto split: sum.splits LoopStep.splits)
    from pop obtain rest where pd: "popData (data flows) = Some (flow, rest)"
      and f1: "flows1 = \<lparr>data = rest, processed = insert flow (processed flows)\<rparr>"
      by (auto simp: pop_def split: option.splits)
    have "set (data flows) \<union> processed flows \<subseteq> set (data flows1) \<union> processed flows1"
      using popData_Some[OF pd] f1 by auto
    also have "\<dots> \<subseteq> set (data flows2) \<union> processed flows2"
      using flowStep_data[OF step] flowStep_Continue(1)[OF step] by auto
    finally have sub: "set (data flows) \<union> processed flows
                         \<subseteq> set (data flows2) \<union> processed flows2" .
    from IH[OF rec res reachedOk_step[OF ok pop step]] sub
    show ?thesis by blast
  qed
qed

lemma set_fold_insert: "set (fold List.insert xs acc) = set xs \<union> set acc"
  by (induction xs arbitrary: acc) auto

lemma set_fold_fold_insert:
  "set (fold (\<lambda>s gs. fold List.insert (f s) gs) xs acc) = (\<Union>s \<in> set xs. set (f s)) \<union> set acc"
  by (induction xs arbitrary: acc) (auto simp: set_fold_insert)

lemma known_set_iff:
  "(case r of None \<Rightarrow> False | Some s' \<Rightarrow> s' \<in> S) \<longleftrightarrow> (\<exists>s'. r = Some s' \<and> s' \<in> S)"
  by (cases r) simp_all

lemma getsAreExclusiveToSets_iff:
  "getsAreExclusiveToSets env a \<longleftrightarrow>
     (\<forall>s \<in> set (sets a). \<forall>g \<in> set (getSetInfluences env s). \<forall>r \<in> set (getSets env g).
        \<exists>s'. r = Some s' \<and> s' \<in> set (sets a))"
  unfolding getsAreExclusiveToSets_def Let_def list_all_iff set_fold_fold_insert known_set_iff
  by auto


subsection \<open>The loop terminates on a finite body\<close>

lemma finite_flowUniverse: "finite (flowUniverse N)"
  by (simp add: flowUniverse_def)

lemma queueInv_push: "queueInv N q \<Longrightarrow> item \<in> flowUniverse N \<Longrightarrow> queueInv N (push q item)"
  by (auto simp: queueInv_def push_def)

lemma queueInv_fold_push:
  "queueInv N q \<Longrightarrow> \<forall>x \<in> set xs. f x \<in> flowUniverse N
     \<Longrightarrow> queueInv N (fold (\<lambda>x q. push q (f x)) xs q)"
  by (induction xs arbitrary: q) (simp_all add: queueInv_push)

lemma queueInv_case_LocalSet:
  "queueInv N q0 \<Longrightarrow> \<forall>x \<in> set xs. f x \<in> flowUniverse N
     \<Longrightarrow> queueInv N (case k of LocalSet i v t \<Rightarrow> fold (\<lambda>x q. push q (f x)) xs q0 | _ \<Rightarrow> q0)"
  by (cases k) (simp_all add: queueInv_fold_push)

lemma parent_in_universe:
  "boundedEnv env N \<Longrightarrow> e < N \<Longrightarrow> (e, getParent env e) \<in> flowUniverse N"
  by (cases "getParent env e") (auto simp: boundedEnv_def flowUniverse_def)

lemma flowStep_queueInv:
  assumes b: "boundedEnv env N" and f: "flow \<in> flowUniverse N" and q: "queueInv N flows"
    and step: "flowStep env alloc flow flows a = Inr (Continue flows2 a2)"
  shows "queueInv N flows2"
proof -
  from flowStep_Continue(2)[OF step] obtain p where p: "snd flow = Some p" by blast
  have c: "fst flow < N" and pN: "p < N"
    using f p by (cases flow; auto simp: flowUniverse_def)+
  have q1: "queueInv N (push flows (p, getParent env p))"
    using q parent_in_universe[OF b pN] by (simp add: queueInv_push)
  have g: "\<forall>x \<in> set (getSetInfluences env p). (x, getParent env x) \<in> flowUniverse N"
    using b parent_in_universe[OF b] by (auto simp: boundedEnv_def)
  have t: "\<forall>n \<in> set ns. (fst flow, Some (getTarget env n)) \<in> flowUniverse N" for ns
    using b c by (auto simp: boundedEnv_def flowUniverse_def)
  show ?thesis
    using step p
    by (auto simp: flowStep_def Let_def split: sum.splits if_splits
             intro!: queueInv_fold_push queueInv_case_LocalSet q q1 g t)
qed

lemma flowLoop_terminates:
  assumes b: "boundedEnv env N"
  shows "queueInv N flows \<Longrightarrow> \<exists>r. flowLoop env alloc flows a = Some r"
proof (induction "card (flowUniverse N - processed flows)" arbitrary: flows a rule: less_induct)
  case less
  show ?case
  proof (cases "data flows = []")
    case True
    then show ?thesis by (subst flowLoop.simps) simp
  next
    case False
    then obtain flow rest where pd: "popData (data flows) = Some (flow, rest)"
      using popData_None[of "data flows"] by (cases "popData (data flows)") auto
    define flows1 where "flows1 = \<lparr>data = rest, processed = insert flow (processed flows)\<rparr>"
    have pop: "pop flows = Some (flow, flows1)"
      by (simp add: pop_def pd flows1_def)
    from popData_Some[OF pd] less.prems
    have fU: "flow \<in> flowUniverse N" and fnp: "flow \<notin> processed flows"
      and q1: "queueInv N flows1"
      by (auto simp: queueInv_def flows1_def)
    have "flowUniverse N - processed flows1 \<subset> flowUniverse N - processed flows"
      using fU fnp by (auto simp: flows1_def)
    then have dec: "card (flowUniverse N - processed flows1)
                      < card (flowUniverse N - processed flows)"
      by (intro psubset_card_mono) (simp_all add: finite_flowUniverse)
    show ?thesis
    proof (cases "flowStep env alloc flow flows1 a")
      case (Inl e)
      then show ?thesis using False pop by (subst flowLoop.simps) simp
    next
      case (Inr st)
      show ?thesis
      proof (cases st)
        case ReturnTrue
        then show ?thesis using False pop Inr by (subst flowLoop.simps) simp
      next
        case (Continue flows2 a2)
        have step: "flowStep env alloc flow flows1 a = Inr (Continue flows2 a2)"
          using Inr Continue by simp
        have q2: "queueInv N flows2" by (rule flowStep_queueInv[OF b fU q1 step])
        have "processed flows2 = processed flows1" by (rule flowStep_Continue(1)[OF step])
        with dec have "card (flowUniverse N - processed flows2)
                         < card (flowUniverse N - processed flows)"
          by simp
        from less.hyps[OF this q2] obtain r where "flowLoop env alloc flows2 a2 = Some r"
          by blast
        then show ?thesis using False pop step by (subst flowLoop.simps) simp
      qed
    qed
  qed
qed

text \<open>
  \<open>escapes\<close> returns on every function body: with the addresses bounded, the analysis
  yields a result (an answer or a failed assertion), never a loop that runs forever.
\<close>

lemma escapes_terminates:
  assumes "boundedEnv env N" and "alloc < N"
  shows "\<exists>r. EscapeAnalyzer_escapes env a alloc = Some r"
proof -
  have "queueInv N (push emptyQueue (alloc, getParent env alloc))"
    using parent_in_universe[OF assms] by (simp add: queueInv_def push_def emptyQueue_def)
  from flowLoop_terminates[OF assms(1) this]
  obtain r where "flowLoop env alloc (push emptyQueue (alloc, getParent env alloc)) a = Some r"
    by blast
  then show ?thesis
    by (auto simp: EscapeAnalyzer_escapes_def split: sum.splits)
qed

lemma escapes_setGetEnv:
  "EscapeAnalyzer_escapes setGetEnv newEscapeAnalyzer 0 =
     Some (Inr (False, \<lparr>data = [], processed = {(2, Some 3), (0, Some 1)}\<rparr>,
       \<lparr>sets = [1],
        reachedInteractions = [0 \<mapsto> Flows, 1 \<mapsto> FullyConsumes, 2 \<mapsto> Flows, 3 \<mapsto> FullyConsumes]\<rparr>))"
  by (simp add: EscapeAnalyzer_escapes_def flowLoop.simps pop_def push_def emptyQueue_def
        flowStep_def getParentChildInteraction_def Checker_visit_def setGetEnv_def
        setGetArena_def newEscapeAnalyzer_def branchesSentByParent_def
        getsAreExclusiveToSets_def)

lemma flowLoop_sharedGetEnv:
  "flowLoop sharedGetEnv 0 (push emptyQueue (0, getParent sharedGetEnv 0)) newEscapeAnalyzer =
     Some (Inr (False, \<lparr>data = [], processed = {(2, Some 3), (0, Some 1)}\<rparr>,
       \<lparr>sets = [1],
        reachedInteractions = [0 \<mapsto> Flows, 1 \<mapsto> FullyConsumes, 2 \<mapsto> Flows, 3 \<mapsto> FullyConsumes]\<rparr>))"
  by (simp add: flowLoop.simps pop_def push_def emptyQueue_def
        flowStep_def getParentChildInteraction_def Checker_visit_def setGetEnv_def
        sharedGetEnv_def setGetArena_def newEscapeAnalyzer_def branchesSentByParent_def)


subsection \<open>Claims on the escape analysis\<close>

text \<open>
  C1 (get-exclusivity). When the worklist of \<open>escapes\<close> drains, \<open>escapes\<close> returns true
  exactly when some \<open>local.get\<close> influenced by a recorded \<open>local.set\<close> may read from a
  set that is not recorded (the null set of the function entry included); and so, when
  \<open>escapes\<close> returns false, every \<open>local.get\<close> influenced by a recorded set reads only
  from recorded sets.
\<close>

theorem escapes_get_exclusivity:
  "(flowLoop env alloc (push emptyQueue (alloc, getParent env alloc)) a
        = Some (Inr (False, flows, a')) \<longrightarrow>
      EscapeAnalyzer_escapes env a alloc =
        Some (Inr (\<not> (\<forall>s \<in> set (sets a'). \<forall>g \<in> set (getSetInfluences env s).
                       \<forall>r \<in> set (getSets env g). \<exists>s'. r = Some s' \<and> s' \<in> set (sets a')),
                   flows, a')))
   \<and> (EscapeAnalyzer_escapes env a alloc = Some (Inr (False, flows, a')) \<longrightarrow>
        (\<forall>s \<in> set (sets a'). \<forall>g \<in> set (getSetInfluences env s).
           \<forall>r \<in> set (getSets env g). \<exists>s'. r = Some s' \<and> s' \<in> set (sets a')))"
proof (intro conjI impI)
  assume "flowLoop env alloc (push emptyQueue (alloc, getParent env alloc)) a
            = Some (Inr (False, flows, a'))"
  then show "EscapeAnalyzer_escapes env a alloc =
        Some (Inr (\<not> (\<forall>s \<in> set (sets a'). \<forall>g \<in> set (getSetInfluences env s).
                       \<forall>r \<in> set (getSets env g). \<exists>s'. r = Some s' \<and> s' \<in> set (sets a')),
                   flows, a'))"
    by (simp add: EscapeAnalyzer_escapes_def getsAreExclusiveToSets_iff)
next
  assume "EscapeAnalyzer_escapes env a alloc = Some (Inr (False, flows, a'))"
  then have "getsAreExclusiveToSets env a'"
    by (auto simp: EscapeAnalyzer_escapes_def
             split: option.splits sum.splits prod.splits if_splits)
  then show "\<forall>s \<in> set (sets a'). \<forall>g \<in> set (getSetInfluences env s).
           \<forall>r \<in> set (getSets env g). \<exists>s'. r = Some s' \<and> s' \<in> set (sets a')"
    by (simp only: getsAreExclusiveToSets_iff)
qed

theorem escapes_get_exclusivity_witness:
  "EscapeAnalyzer_escapes sharedGetEnv newEscapeAnalyzer 0 =
     Some (Inr (True, \<lparr>data = [], processed = {(2, Some 3), (0, Some 1)}\<rparr>,
       \<lparr>sets = [1],
        reachedInteractions = [0 \<mapsto> Flows, 1 \<mapsto> FullyConsumes, 2 \<mapsto> Flows, 3 \<mapsto> FullyConsumes]\<rparr>))
   \<and> EscapeAnalyzer_escapes setGetEnv newEscapeAnalyzer 0 =
     Some (Inr (False, \<lparr>data = [], processed = {(2, Some 3), (0, Some 1)}\<rparr>,
       \<lparr>sets = [1],
        reachedInteractions = [0 \<mapsto> Flows, 1 \<mapsto> FullyConsumes, 2 \<mapsto> Flows, 3 \<mapsto> FullyConsumes]\<rparr>))
   \<and> getSets setGetEnv 2 = [Some 1]"
proof -
  note shared = escapes_get_exclusivity[where env=sharedGetEnv and alloc=0
      and a=newEscapeAnalyzer
      and flows="\<lparr>data = [], processed = {(2, Some 3), (0, Some 1)}\<rparr>"
      and a'="\<lparr>sets = [1],
        reachedInteractions = [0 \<mapsto> Flows, 1 \<mapsto> FullyConsumes, 2 \<mapsto> Flows, 3 \<mapsto> FullyConsumes]\<rparr>",
      THEN conjunct1, rule_format, OF flowLoop_sharedGetEnv]
  note excl = escapes_get_exclusivity[where env=setGetEnv and alloc=0
      and a=newEscapeAnalyzer
      and flows="\<lparr>data = [], processed = {(2, Some 3), (0, Some 1)}\<rparr>"
      and a'="\<lparr>sets = [1],
        reachedInteractions = [0 \<mapsto> Flows, 1 \<mapsto> FullyConsumes, 2 \<mapsto> Flows, 3 \<mapsto> FullyConsumes]\<rparr>",
      THEN conjunct2, rule_format, OF escapes_setGetEnv]
  have g: "getSets setGetEnv 2 = [Some 1]" by (simp add: setGetEnv_def)
  have s: "\<not> (\<forall>s\<in>set [1::nat]. \<forall>g\<in>set (getSetInfluences sharedGetEnv s).
             \<forall>r\<in>set (getSets sharedGetEnv g). \<exists>s'. r = Some s' \<and> s' \<in> set [1::nat])"
    by (simp add: sharedGetEnv_def setGetEnv_def)
  from shared s excl g escapes_setGetEnv show ?thesis by simp
qed

text \<open>
  C2 (reached map). When \<open>escapes\<close>, run on a new analyzer, returns false, every entry
  of \<open>reachedInteractions\<close> is \<open>Flows\<close> or \<open>FullyConsumes\<close>; the first pair, of the
  allocation and its parent, was popped; and for every pair \<open>(child, parent)\<close> that
  the walk popped, the parent is not null and both the child and the parent are keys
  of the map.
\<close>

theorem escapes_reached_invariant:
  assumes "EscapeAnalyzer_escapes env newEscapeAnalyzer alloc = Some (Inr (False, flows, a))"
  shows "(\<forall>e i. reachedInteractions a e = Some i \<longrightarrow> i = Flows \<or> i = FullyConsumes)
       \<and> (alloc, getParent env alloc) \<in> processed flows
       \<and> (\<forall>(c, p) \<in> processed flows. c \<in> dom (reachedInteractions a) \<and>
              (\<exists>q. p = Some q \<and> q \<in> dom (reachedInteractions a)))"
proof -
  from assms have loop: "flowLoop env alloc (push emptyQueue (alloc, getParent env alloc))
       newEscapeAnalyzer = Some (Inr (False, flows, a))"
    by (auto simp: EscapeAnalyzer_escapes_def
             split: option.splits sum.splits prod.splits if_splits)
  have init: "reachedOk (push emptyQueue (alloc, getParent env alloc)) newEscapeAnalyzer"
    by (simp add: reachedOk_def emptyQueue_def newEscapeAnalyzer_def)
  have "(alloc, getParent env alloc)
          \<in> set (data (push emptyQueue (alloc, getParent env alloc)))"
    by (simp add: push_def emptyQueue_def)
  with flowLoop_drained[OF loop refl init] show ?thesis
    unfolding reachedOk_def by blast
qed

theorem escapes_reached_invariant_witness:
  "EscapeAnalyzer_escapes setGetEnv newEscapeAnalyzer 0 =
     Some (Inr (False, \<lparr>data = [], processed = {(2, Some 3), (0, Some 1)}\<rparr>,
       \<lparr>sets = [1],
        reachedInteractions = [0 \<mapsto> Flows, 1 \<mapsto> FullyConsumes, 2 \<mapsto> Flows, 3 \<mapsto> FullyConsumes]\<rparr>))
   \<and> (0, getParent setGetEnv 0) \<in> {(2::nat, Some (3::nat)), (0, Some 1)}"
proof -
  note inst = escapes_reached_invariant[OF escapes_setGetEnv]
  from inst escapes_setGetEnv show ?thesis by simp
qed

text \<open>
  C3 (an \<open>if\<close> parent), as amended. The checker has no method for \<open>if\<close>, so the
  classification of a pair whose parent is an \<open>if\<close> is \<open>Escapes\<close>, whatever the type of
  the \<open>if\<close>: it is never \<open>Flows\<close>, and it is not \<open>Mixes\<close> either.
\<close>

theorem if_parent_escapes:
  "kind (exprs env p) = IfExpr c t f
     \<Longrightarrow> getParentChildInteraction env alloc (Some p) ch = Inr Escapes"
  by (simp add: getParentChildInteraction_def Checker_visit_def)

theorem if_parent_escapes_witness:
  "kind (exprs ifEnv 3) = IfExpr 1 0 (Some 2)
     \<and> getParentChildInteraction ifEnv 0 (Some 3) 0 = Inr Escapes"
proof -
  have k: "kind (exprs ifEnv 3) = IfExpr 1 0 (Some 2)"
    by (simp add: ifEnv_def ifArena_def)
  from k if_parent_escapes[OF k, of 0 0] show ?thesis by simp
qed

text \<open>
  The claim as stated fails on an \<open>if\<close> of reference type, whose type does not show
  that the value stops there: the classification is not \<open>Mixes\<close>.
\<close>

theorem if_parent_mixes_counterexample:
  "kind (exprs ifEnv 3) = IfExpr 1 0 (Some 2) \<and> isRef (type (exprs ifEnv 3))
     \<and> getParentChildInteraction ifEnv 0 (Some 3) 0 \<noteq> Inr Mixes"
  by (simp add: getParentChildInteraction_def Checker_visit_def ifEnv_def ifArena_def)


section \<open>Rewriting: the builder only adds nodes\<close>

lemmas builder_defs = allocate_def makeDrop_def makeLocalSet_def makeLocalGet_def makeConst_def
  makeRefNull_def makeConstantExpression_def makeRefAs_def makeUnreachable_def makeBlock_def
  makeSequence_def makeStructSet_def makeStructGet_def

lemma addVars_eq:
  "addVars f ts = ([length (params f) + length (vars f) ..<
                      length (params f) + length (vars f) + length ts],
                   f\<lparr>vars := vars f @ ts\<rparr>)"
proof (induction ts arbitrary: f)
  case Nil
  show ?case by simp
next
  case (Cons t ts)
  let ?b = "length (params f) + length (vars f)"
  have "?b < ?b + length (t # ts)" by simp
  then have "[?b ..< ?b + length (t # ts)] = ?b # [Suc ?b ..< ?b + length (t # ts)]"
    by (rule upt_conv_Cons)
  moreover have "?b + length (t # ts) = Suc ?b + length ts" by simp
  ultimately have u: "[?b ..< ?b + length (t # ts)] = ?b # [Suc ?b ..< Suc ?b + length ts]"
    by (simp only:)
  have "addVars f (t # ts) = (?b # [Suc ?b ..< Suc ?b + length ts], f\<lparr>vars := vars f @ t # ts\<rparr>)"
    by (simp add: Cons.IH addVar_def)
  with u show ?case by simp
qed

lemma extends_refl [simp]: "extends st st"
  by (simp add: extends_def)

lemma extends_trans: "extends a b \<Longrightarrow> extends b c \<Longrightarrow> extends a c"
  by (auto simp: extends_def)

lemma extends_allocate: "allocate st e = (r, st') \<Longrightarrow> extends st st'"
  by (auto simp: allocate_def extends_def)

lemma extends_makeLocalSet: "makeLocalSet i v st = (r, st') \<Longrightarrow> extends st st'"
  unfolding makeLocalSet_def by (rule extends_allocate)

lemma extends_makeLocalGet: "makeLocalGet i t st = (r, st') \<Longrightarrow> extends st st'"
  unfolding makeLocalGet_def by (rule extends_allocate)

lemma extends_makeConstantExpression: "makeConstantExpression l st = (r, st') \<Longrightarrow> extends st st'"
  unfolding makeConstantExpression_def makeRefNull_def makeConst_def
  by (cases l) (auto dest: extends_allocate)

lemma buildEach_extends:
  assumes f: "\<And>x st r st'. f x st = (r, st') \<Longrightarrow> extends st st'"
  shows "buildEach f xs st = (es, st') \<Longrightarrow> extends st st' \<and> length es = length xs"
proof (induction xs arbitrary: st es)
  case Nil
  then show ?case by simp
next
  case (Cons x xs)
  obtain e st1 where 1: "f x st = (e, st1)" by (cases "f x st")
  with Cons.prems obtain es1 where 2: "buildEach f xs st1 = (es1, st')" and r: "es = e # es1"
    by (auto split: prod.splits)
  from Cons.IH[OF 2] f[OF 1] r show ?case
    by (auto intro: extends_trans)
qed

lemma buildEach_makeLocalSet:
  "buildEach (\<lambda>i. makeLocalSet (g i) (h i)) xs st = (es, st')
     \<Longrightarrow> extends st st' \<and> length es = length xs"
  by (rule buildEach_extends[of "\<lambda>i. makeLocalSet (g i) (h i)"]) (auto dest: extends_makeLocalSet)

lemma buildEach_fieldSets:
  "buildEach (\<lambda>i st. case (if b then makeConstantExpression (z i) st
                            else makeLocalGet (g i) (t i) st) of
                       (val, st') \<Rightarrow> makeLocalSet (l i) val st') xs st = (es, st')
     \<Longrightarrow> extends st st' \<and> length es = length xs"
proof (rule buildEach_extends[where f="\<lambda>i st. case (if b then makeConstantExpression (z i) st
                            else makeLocalGet (g i) (t i) st) of
                       (val, st') \<Rightarrow> makeLocalSet (l i) val st'"], goal_cases)
  case (1 x st r st')
  then show ?case
    by (auto split: prod.splits if_splits
             dest: extends_makeConstantExpression extends_makeLocalGet extends_makeLocalSet
             intro: extends_trans)
next
  case 2
  then show ?case .
qed

lemma extends_arena: "extends st st' \<Longrightarrow> x < fresh st \<Longrightarrow> arena st' x = arena st x"
  by (simp add: extends_def)

lemma extends_fresh: "extends st st' \<Longrightarrow> x < fresh st \<Longrightarrow> x < fresh st'"
  by (simp add: extends_def)

lemma createTemps_eq:
  "createTemps f withDefault flds (Some t) =
     ((if withDefault then []
       else [length (params f) + length (vars f) ..<
               length (params f) + length (vars f) + length flds])
        @ [length (params f) + length (vars f) + (if withDefault then 0 else length flds)],
      f\<lparr>vars := vars f @ (if withDefault then [] else flds) @ [t]\<rparr>)"
  by (simp add: createTemps_def addVars_eq)

lemma storeTemps_extends:
  "storeTemps withDefault n tempIndexes operands st = (c1, st1)
     \<Longrightarrow> extends st st1 \<and> length c1 = (if withDefault then 0 else n)"
  by (auto simp: storeTemps_def split: if_splits dest: buildEach_makeLocalSet)

lemma storeFieldLocals_extends:
  "storeFieldLocals withDefault flds tempIndexes locals st = (c3, st3)
     \<Longrightarrow> extends st st3 \<and> length c3 = length flds"
  unfolding storeFieldLocals_def by (drule buildEach_fieldSets) simp

lemma storeDescTemp_Some:
  assumes "storeDescTemp (Some d) ti st = (c2, st2)" and "d < fresh st"
  shows "\<exists>dset dval. c2 = [dset] \<and> dset < fresh st2 \<and> extends st st2 \<and>
           kind (arena st2 dset) = LocalSet ti dval False \<and>
           (if isNullable (type (arena st d))
            then dval < fresh st2 \<and> kind (arena st2 dval) = RefAs RefAsNonNull d
            else dval = d)"
  using assms
  by (auto simp: storeDescTemp_def makeRefAs_def makeLocalSet_def allocate_def extends_def
           split: if_splits)

lemma storeDescLocal_Some:
  assumes "storeDescLocal (Some d) ti li st = (c4, st4)"
  shows "\<exists>lset lget. c4 = [lset] \<and> lset < fresh st4 \<and> lget < fresh st4 \<and> extends st st4 \<and>
           kind (arena st4 lset) = LocalSet li lget False \<and>
           arena st4 lget = \<lparr>kind = LocalGet ti, type = type (arena st d)\<rparr>"
  using assms
  by (auto simp: storeDescLocal_def makeLocalGet_def makeLocalSet_def allocate_def extends_def)


section \<open>Claims on the rewriting\<close>

text \<open>
  C4 (allocation with a descriptor). At the allocation, when it carries a descriptor
  \<open>d\<close>, \<open>visitStructNew\<close> replaces it by a block
  \<open>c1 @ [dset] @ c3 @ [lset, nul]\<close>: \<open>c1\<close> stores the operands into their temps (it is
  empty for an allocation with defaults), \<open>dset\<close> is a \<open>local.set\<close> of one more temp,
  added to the function after those of the fields, whose value is \<open>d\<close> itself when the
  type of \<open>d\<close> is not nullable and a \<open>ref.as_non_null\<close> of \<open>d\<close> when it is; \<open>c3\<close>
  sets the field locals, \<open>lset\<close> copies the temp into the descriptor's local, and the
  block ends with \<open>nul\<close>, a \<open>ref.null\<close> of the allocation's heap type.
\<close>

theorem visitStructNew_descriptor:
  assumes cur: "cur = allocation s" "current s = cur"
    and node: "kind (arena (store s) cur) = StructNew operands (Some d)"
    and ty: "type (arena (store s) cur) = Ref h nl"
    and reached: "getInteraction (analyzer s) cur \<noteq> NoInteraction"
    and ops: "operands = [] \<or> length (fieldList s) \<le> length operands"
    and locals: "length (fieldList s) < length (localIndexes s)"
    and d: "d < fresh (store s)"
  shows "\<exists>s' c1 dset dval c3 lset lget nul.
      Struct2Local_visitStructNew s cur = Inr s'
    \<and> kind (arena (store s') (current s')) = Block [] (c1 @ [dset] @ c3 @ [lset, nul])
    \<and> length c1 = (if operands = [] then 0 else length (fieldList s))
    \<and> length c3 = length (fieldList s)
    \<and> vars (func s') = vars (func s)
         @ (if operands = [] then [] else fieldList s) @ [type (arena (store s) d)]
    \<and> kind (arena (store s') dset)
         = LocalSet (length (params (func s)) + length (vars (func s))
                       + length c1) dval False
    \<and> (if isNullable (type (arena (store s) d))
        then kind (arena (store s') dval) = RefAs RefAsNonNull d else dval = d)
    \<and> kind (arena (store s') lset) = LocalSet (localIndexes s ! length (fieldList s)) lget False
    \<and> arena (store s') lget
         = \<lparr>kind = LocalGet (length (params (func s)) + length (vars (func s))
                               + length c1),
             type = type (arena (store s) d)\<rparr>
    \<and> arena (store s') nul = \<lparr>kind = RefNull, type = Ref h Nullable\<rparr>"
proof -
  let ?wd = "operands = []"
  let ?n = "length (fieldList s)"
  let ?base = "length (params (func s)) + length (vars (func s))"
  let ?k = "if ?wd then 0 else ?n"
  let ?ti = "?base + ?k"
  let ?tys = "(if ?wd then [] else fieldList s) @ [type (arena (store s) d)]"
  define tempIndexes where
    "tempIndexes = (if ?wd then [] else [?base ..< ?base + ?n]) @ [?ti]"
  define f2 where "f2 = (func s)\<lparr>vars := vars (func s) @ ?tys\<rparr>"
  have ct: "createTemps (func s) ?wd (fieldList s) (Some (type (arena (store s) d)))
              = (tempIndexes, f2)"
    by (simp add: createTemps_eq tempIndexes_def f2_def)
  have nth: "tempIndexes ! (?k + 1 - 1) = ?ti"
    by (simp add: tempIndexes_def nth_append)
  obtain c1 st1 where s1: "storeTemps ?wd ?n tempIndexes operands (store s) = (c1, st1)"
    by (cases "storeTemps ?wd ?n tempIndexes operands (store s)")
  obtain c2 st2 where s2: "storeDescTemp (Some d) ?ti st1 = (c2, st2)"
    by (cases "storeDescTemp (Some d) ?ti st1")
  obtain c3 st3 where s3: "storeFieldLocals ?wd (fieldList s) tempIndexes (localIndexes s) st2
                             = (c3, st3)"
    by (cases "storeFieldLocals ?wd (fieldList s) tempIndexes (localIndexes s) st2")
  obtain c4 st4 where s4: "storeDescLocal (Some d) ?ti (localIndexes s ! ?n) st3 = (c4, st4)"
    by (cases "storeDescLocal (Some d) ?ti (localIndexes s ! ?n) st3")
  define nul where "nul = fresh st4"
  define st5 where "st5 = \<lparr>arena = (arena st4)(nul := \<lparr>kind = RefNull, type = Ref h Nullable\<rparr>),
                            fresh = Suc nul\<rparr>"
  define blk where "blk = Suc nul"
  define st6 where "st6 = \<lparr>arena = (arena st5)(blk :=
                               \<lparr>kind = Block [] (c1 @ c2 @ c3 @ c4 @ [nul]),
                                type = blockType (arena st5) (c1 @ c2 @ c3 @ c4 @ [nul])\<rparr>),
                            fresh = Suc blk\<rparr>"
  have s5: "makeRefNull h st4 = (nul, st5)"
    by (simp add: makeRefNull_def allocate_def nul_def st5_def)
  have s6: "makeBlock (c1 @ c2 @ c3 @ c4 @ [nul]) st5 = (blk, st6)"
    by (simp add: makeBlock_def allocate_def blk_def st6_def st5_def)
  from reached obtain ia where ia: "reachedInteractions (analyzer s) cur = Some ia"
    by (auto simp: getInteraction_def split: option.splits)
  define s' where "s' = s\<lparr>analyzer := (if type (arena st6 blk) \<noteq> unreachable
                             then (analyzer s)\<lparr>reachedInteractions :=
                                     (reachedInteractions (analyzer s))(blk \<mapsto> ia)\<rparr>
                             else analyzer s),
                           func := f2, store := st6, current := blk\<rparr>"
  have run: "Struct2Local_visitStructNew s cur = Inr s'"
    using cur node ty ops locals ia ct nth s1 s2 s3 s4 s5 s6
    by (auto simp: Struct2Local_visitStructNew_def Let_def replaceCurrent_def
          applyOldInteractionToReplacement_def s'_def)
  from storeTemps_extends[OF s1] have e1: "extends (store s) st1" and l1: "length c1 = ?k"
    by simp_all
  have d1: "d < fresh st1" by (rule extends_fresh[OF e1 d])
  have td: "type (arena st1 d) = type (arena (store s) d)"
    by (simp add: extends_arena[OF e1 d])
  from storeDescTemp_Some[OF s2 d1] td obtain dset dval where
    c2: "c2 = [dset]" and dset: "dset < fresh st2" and e2: "extends st1 st2"
    and kd: "kind (arena st2 dset) = LocalSet ?ti dval False"
    and dv: "if isNullable (type (arena (store s) d))
             then dval < fresh st2 \<and> kind (arena st2 dval) = RefAs RefAsNonNull d
             else dval = d"
    by auto
  from storeFieldLocals_extends[OF s3] have e3: "extends st2 st3" and l3: "length c3 = ?n"
    by simp_all
  have d3: "d < fresh st3" by (rule extends_fresh[OF e3 extends_fresh[OF e2 d1]])
  have td3: "type (arena st3 d) = type (arena (store s) d)"
    using extends_arena[OF e3 extends_fresh[OF e2 d1]] extends_arena[OF e2 d1] td by simp
  from storeDescLocal_Some[OF s4] td3 obtain lset lget where
    c4: "c4 = [lset]" and lset: "lset < fresh st4" and lget: "lget < fresh st4"
    and e4: "extends st3 st4"
    and kl: "kind (arena st4 lset) = LocalSet (localIndexes s ! ?n) lget False"
    and kg: "arena st4 lget = \<lparr>kind = LocalGet ?ti, type = type (arena (store s) d)\<rparr>"
    by auto
  have e6: "extends st4 st6"
    by (auto simp: extends_def st6_def st5_def blk_def nul_def)
  have e26: "extends st2 st6"
    by (rule extends_trans[OF e3 extends_trans[OF e4 e6]])
  have a_dset: "kind (arena st6 dset) = LocalSet ?ti dval False"
    using extends_arena[OF e26 dset] kd by simp
  have a_dval: "if isNullable (type (arena (store s) d))
             then kind (arena st6 dval) = RefAs RefAsNonNull d else dval = d"
    using dv extends_arena[OF e26, of dval] by (auto split: if_splits)
  have a_lset: "kind (arena st6 lset) = LocalSet (localIndexes s ! ?n) lget False"
    using extends_arena[OF e6 lset] kl by simp
  have a_lget: "arena st6 lget = \<lparr>kind = LocalGet ?ti, type = type (arena (store s) d)\<rparr>"
    using extends_arena[OF e6 lget] kg by simp
  have a_nul: "arena st6 nul = \<lparr>kind = RefNull, type = Ref h Nullable\<rparr>"
    by (simp add: st6_def st5_def blk_def)
  have a_blk: "kind (arena st6 blk) = Block [] (c1 @ [dset] @ c3 @ [lset, nul])"
    by (simp add: st6_def c2 c4)
  have st: "store s' = st6" "current s' = blk" "func s' = f2"
    by (simp_all add: s'_def)
  show ?thesis
    apply (rule exI[of _ s'], rule exI[of _ c1], rule exI[of _ dset], rule exI[of _ dval],
           rule exI[of _ c3], rule exI[of _ lset], rule exI[of _ lget], rule exI[of _ nul])
    using run a_blk l1 l3 a_dset a_dval a_lset a_lget a_nul
    by (simp add: st f2_def)
qed


theorem visitStructNew_descriptor_witness:
  "(case Struct2Local_visitStructNew descState 2 of
      Inl e \<Rightarrow> False
    | Inr s' \<Rightarrow>
        kind (arena (store s') (current s')) = Block [] [4, 6, 8, 10, 11]
        \<and> kind (arena (store s') 6) = LocalSet 4 5 False
        \<and> kind (arena (store s') 5) = RefAs RefAsNonNull 0
        \<and> arena (store s') 11 = \<lparr>kind = RefNull, type = Ref 7 Nullable\<rparr>
        \<and> vars (func s') = [Ref 9 Nullable, i32, Ref 9 Nullable, i32, Ref 9 Nullable])
   \<and> isNullable (type (arena (store descState) 0))"
proof -
  have h: "2 = allocation descState" "current descState = 2"
    "kind (arena (store descState) 2) = StructNew [1] (Some 0)"
    "type (arena (store descState) 2) = Ref 7 NonNullable"
    "getInteraction (analyzer descState) 2 \<noteq> NoInteraction"
    "[1::nat] = [] \<or> length (fieldList descState) \<le> length [1::nat]"
    "length (fieldList descState) < length (localIndexes descState)"
    "0 < fresh (store descState)"
    by (simp_all add: descState_def descArena_def getInteraction_def)
  note inst = visitStructNew_descriptor[OF h]
  have run: "(case Struct2Local_visitStructNew descState 2 of
      Inl e \<Rightarrow> False
    | Inr s' \<Rightarrow>
        kind (arena (store s') (current s')) = Block [] [4, 6, 8, 10, 11]
        \<and> kind (arena (store s') 6) = LocalSet 4 5 False
        \<and> kind (arena (store s') 5) = RefAs RefAsNonNull 0
        \<and> arena (store s') 11 = \<lparr>kind = RefNull, type = Ref 7 Nullable\<rparr>
        \<and> vars (func s') = [Ref 9 Nullable, i32, Ref 9 Nullable, i32, Ref 9 Nullable])"
    by (simp add: Struct2Local_visitStructNew_def createTemps_def storeTemps_def
          storeDescTemp_def storeFieldLocals_def storeDescLocal_def addVar_def
          replaceCurrent_def applyOldInteractionToReplacement_def builder_defs blockType_def
          descState_def descArena_def Let_def)
  have "isNullable (type (arena (store descState) 0))"
    by (simp add: descState_def descArena_def)
  with inst run show ?thesis by blast
qed

text \<open>
  C5 (array access out of bounds). For a reached \<open>array.get\<close> or \<open>array.set\<close> whose
  index is a constant of unsigned value at least \<open>numFields\<close>, \<open>Array2Struct\<close>
  replaces the access by a block that drops the reference (and, for a set, the value)
  and ends in \<open>unreachable\<close>, and sets \<open>refinalize\<close>. The constant index is not
  evaluated in the replacement.
\<close>

theorem array_access_out_of_bounds:
  "(getInteraction (analyzer s) cur \<noteq> NoInteraction \<and> current s = cur \<and>
    kind (arena (store s) cur) = ArrayGet ref index sg \<and>
    kind (arena (store s) index) = Const (LitI32 w) \<and> numFields s \<le> unat w \<longrightarrow>
      (\<exists>s' d u. Array2Struct_visitArrayGet s cur = Inr s' \<and> refinalize s' \<and>
         kind (arena (store s') (current s')) = Block [] [d, u] \<and>
         kind (arena (store s') d) = Drop ref \<and>
         kind (arena (store s') u) = Unreachable))
   \<and> (getInteraction (analyzer s) cur \<noteq> NoInteraction \<and> current s = cur \<and>
    kind (arena (store s) cur) = ArraySet ref index val \<and>
    kind (arena (store s) index) = Const (LitI32 w) \<and> numFields s \<le> unat w \<longrightarrow>
      (\<exists>s' d1 d2 u. Array2Struct_visitArraySet s cur = Inr s' \<and> refinalize s' \<and>
         kind (arena (store s') (current s')) = Block [] [d1, d2, u] \<and>
         kind (arena (store s') d1) = Drop ref \<and>
         kind (arena (store s') d2) = Drop val \<and>
         kind (arena (store s') u) = Unreachable))"
  by (auto simp: Array2Struct_visitArrayGet_def Array2Struct_visitArraySet_def getIndex_def
        getInteraction_def replaceCurrent_def applyOldInteractionToReplacement_def
        builder_defs blockType_def
        split: option.splits)

theorem array_access_out_of_bounds_witness:
  "numFields arrayState \<le> unat (5 :: 32 word)
   \<and> kind (arena (store arrayState) 2) = ArrayGet 0 1 False
   \<and> kind (arena (store arrayState) 4) = ArraySet 0 1 3
   \<and> kind (arena (store arrayState) 1) = Const (LitI32 5)
   \<and> (case Array2Struct_visitArrayGet arrayState 2 of
        Inl e \<Rightarrow> False
      | Inr s' \<Rightarrow> refinalize s' \<and> kind (arena (store s') (current s')) = Block [] [8, 9]
           \<and> kind (arena (store s') 8) = Drop 0 \<and> kind (arena (store s') 9) = Unreachable)
   \<and> (case Array2Struct_visitArraySet (arrayState\<lparr>current := 4\<rparr>) 4 of
        Inl e \<Rightarrow> False
      | Inr s' \<Rightarrow> refinalize s' \<and> kind (arena (store s') (current s')) = Block [] [8, 9, 10]
           \<and> kind (arena (store s') 8) = Drop 0 \<and> kind (arena (store s') 9) = Drop 3
           \<and> kind (arena (store s') 10) = Unreachable)"
proof -
  have g: "getInteraction (analyzer arrayState) 2 \<noteq> NoInteraction \<and> current arrayState = 2 \<and>
    kind (arena (store arrayState) 2) = ArrayGet 0 1 False \<and>
    kind (arena (store arrayState) 1) = Const (LitI32 5) \<and> numFields arrayState \<le> unat (5 :: 32 word)"
    by (simp add: arrayState_def arrayArena_def getInteraction_def)
  have st: "getInteraction (analyzer (arrayState\<lparr>current := 4\<rparr>)) 4 \<noteq> NoInteraction \<and>
    current (arrayState\<lparr>current := 4\<rparr>) = 4 \<and>
    kind (arena (store (arrayState\<lparr>current := 4\<rparr>)) 4) = ArraySet 0 1 3 \<and>
    kind (arena (store (arrayState\<lparr>current := 4\<rparr>)) 1) = Const (LitI32 5) \<and>
    numFields (arrayState\<lparr>current := 4\<rparr>) \<le> unat (5 :: 32 word)"
    by (simp add: arrayState_def arrayArena_def getInteraction_def)
  note iget = array_access_out_of_bounds[where s=arrayState and cur=2 and ref=0 and index=1
      and sg=False and w=5, THEN conjunct1, rule_format, OF g]
  note iset = array_access_out_of_bounds[where s="arrayState\<lparr>current := 4\<rparr>" and cur=4
      and ref=0 and index=1 and val=3 and w=5, THEN conjunct2, rule_format, OF st]
  have rg: "(case Array2Struct_visitArrayGet arrayState 2 of
        Inl e \<Rightarrow> False
      | Inr s' \<Rightarrow> refinalize s' \<and> kind (arena (store s') (current s')) = Block [] [8, 9]
           \<and> kind (arena (store s') 8) = Drop 0 \<and> kind (arena (store s') 9) = Unreachable)"
    by (simp add: Array2Struct_visitArrayGet_def getIndex_def getInteraction_def
          replaceCurrent_def applyOldInteractionToReplacement_def builder_defs blockType_def
          arrayState_def arrayArena_def)
  have rs: "(case Array2Struct_visitArraySet (arrayState\<lparr>current := 4\<rparr>) 4 of
        Inl e \<Rightarrow> False
      | Inr s' \<Rightarrow> refinalize s' \<and> kind (arena (store s') (current s')) = Block [] [8, 9, 10]
           \<and> kind (arena (store s') 8) = Drop 0 \<and> kind (arena (store s') 9) = Drop 3
           \<and> kind (arena (store s') 10) = Unreachable)"
    by (simp add: Array2Struct_visitArraySet_def getIndex_def getInteraction_def
          replaceCurrent_def applyOldInteractionToReplacement_def builder_defs blockType_def
          arrayState_def arrayArena_def)
  from iget iset g st rg rs show ?thesis by simp
qed

text \<open>
  C6 (\<open>ref.eq\<close>), as amended. A reached \<open>ref.eq\<close> whose type is not \<open>unreachable\<close> is
  replaced by a block that drops the left operand, drops the right operand, and ends
  with the constant 1 if both operands have the interaction \<open>Flows\<close> and with the
  constant 0 otherwise. A reached \<open>ref.eq\<close> of type \<open>unreachable\<close> is left as it is.
\<close>

theorem refEq_replaced_unless_unreachable:
  assumes "getInteraction (analyzer s) cur \<noteq> NoInteraction" and "current s = cur"
    and "kind (arena (store s) cur) = RefEq left right"
  shows "(type (arena (store s) cur) \<noteq> unreachable \<longrightarrow>
           (\<exists>s' d1 d2 c. Struct2Local_visitRefEq s cur = Inr s' \<and>
              kind (arena (store s') (current s')) = Block [] [d1, d2, c] \<and>
              kind (arena (store s') d1) = Drop left \<and>
              kind (arena (store s') d2) = Drop right \<and>
              kind (arena (store s') c) =
                Const (LitI32 (if getInteraction (analyzer s) left = Flows \<and>
                                  getInteraction (analyzer s) right = Flows then 1 else 0))))
       \<and> (type (arena (store s) cur) = unreachable \<longrightarrow> Struct2Local_visitRefEq s cur = Inr s)"
  using assms
  by (auto simp: Struct2Local_visitRefEq_def getInteraction_def replaceCurrent_def
        applyOldInteractionToReplacement_def builder_defs blockType_def
        split: option.splits)

theorem refEq_replaced_unless_unreachable_witness:
  "kind (arena (store refEqState) 2) = RefEq 0 1
   \<and> type (arena (store refEqState) 2) \<noteq> unreachable
   \<and> getInteraction (analyzer refEqState) 0 = Flows
   \<and> getInteraction (analyzer refEqState) 1 = Flows
   \<and> (case Struct2Local_visitRefEq refEqState 2 of
        Inl e \<Rightarrow> False
      | Inr s' \<Rightarrow> kind (arena (store s') (current s')) = Block [] [6, 7, 8]
           \<and> kind (arena (store s') 6) = Drop 0 \<and> kind (arena (store s') 7) = Drop 1
           \<and> kind (arena (store s') 8) = Const (LitI32 1))
   \<and> type (arena (store (refEqState\<lparr>current := 4\<rparr>)) 4) = unreachable
   \<and> Struct2Local_visitRefEq (refEqState\<lparr>current := 4\<rparr>) 4 = Inr (refEqState\<lparr>current := 4\<rparr>)"
proof -
  have h: "getInteraction (analyzer refEqState) 2 \<noteq> NoInteraction" "current refEqState = 2"
    "kind (arena (store refEqState) 2) = RefEq 0 1"
    by (simp_all add: refEqState_def refEqArena_def getInteraction_def)
  have h': "getInteraction (analyzer (refEqState\<lparr>current := 4\<rparr>)) 4 \<noteq> NoInteraction"
    "current (refEqState\<lparr>current := 4\<rparr>) = 4"
    "kind (arena (store (refEqState\<lparr>current := 4\<rparr>)) 4) = RefEq 0 3"
    by (simp_all add: refEqState_def refEqArena_def getInteraction_def)
  have t: "type (arena (store refEqState) 2) \<noteq> unreachable"
    "getInteraction (analyzer refEqState) 0 = Flows"
    "getInteraction (analyzer refEqState) 1 = Flows"
    "type (arena (store (refEqState\<lparr>current := 4\<rparr>)) 4) = unreachable"
    by (simp_all add: refEqState_def refEqArena_def getInteraction_def)
  note i1 = refEq_replaced_unless_unreachable[OF h, THEN conjunct1, rule_format, OF t(1)]
  note i2 = refEq_replaced_unless_unreachable[OF h', THEN conjunct2, rule_format, OF t(4)]
  have r: "(case Struct2Local_visitRefEq refEqState 2 of
        Inl e \<Rightarrow> False
      | Inr s' \<Rightarrow> kind (arena (store s') (current s')) = Block [] [6, 7, 8]
           \<and> kind (arena (store s') 6) = Drop 0 \<and> kind (arena (store s') 7) = Drop 1
           \<and> kind (arena (store s') 8) = Const (LitI32 1))"
    by (simp add: Struct2Local_visitRefEq_def getInteraction_def replaceCurrent_def
          applyOldInteractionToReplacement_def builder_defs blockType_def
          refEqState_def refEqArena_def)
  from i1 i2 h t r show ?thesis by blast
qed

text \<open>
  The claim as stated fails on a reached \<open>ref.eq\<close> of type \<open>unreachable\<close>: the walker
  still points at the \<open>ref.eq\<close> afterwards, and nothing was built.
\<close>

theorem refEq_unreachable_counterexample:
  "getInteraction (analyzer (refEqState\<lparr>current := 4\<rparr>)) 4 = FullyConsumes
   \<and> kind (arena (store (refEqState\<lparr>current := 4\<rparr>)) 4) = RefEq 0 3
   \<and> (case Struct2Local_visitRefEq (refEqState\<lparr>current := 4\<rparr>) 4 of
        Inl e \<Rightarrow> False
      | Inr s' \<Rightarrow> current s' = 4 \<and> kind (arena (store s') (current s')) = RefEq 0 3
           \<and> fresh (store s') = fresh (store refEqState))"
  by (simp add: Struct2Local_visitRefEq_def getInteraction_def refEqState_def refEqArena_def)


section \<open>Finding the allocations\<close>

text \<open>What makes an expression one of the \<open>arrayNews\<close>.\<close>

lemma AllocationFinder_visit_arrayNews:
  assumes "AllocationFinder_visit ar f cur = Inr f'"
  shows "arrayNews f' = arrayNews f \<or>
         (arrayNews f' = arrayNews f @ [cur] \<and> type (ar cur) \<noteq> unreachable \<and>
          ((\<exists>sz init w. kind (ar cur) = ArrayNew sz init \<and> kind (ar sz) = Const (LitI32 w)
                          \<and> unat w < 20)
           \<or> (\<exists>values. kind (ar cur) = ArrayNewFixed values \<and> length values < 20)))"
proof (cases "kind (ar cur)")
  case (ArrayNew sz init)
  show ?thesis
  proof (cases "kind (ar sz)")
    case (Const l)
    then show ?thesis
      using assms ArrayNew
      by (cases l)
         (auto simp: AllocationFinder_visit_def isValidSizeExpr_def isValidSize_def
               split: if_splits)
  qed (insert assms ArrayNew,
       auto simp: AllocationFinder_visit_def isValidSizeExpr_def split: if_splits)
next
  case (ArrayNewFixed vs)
  then show ?thesis
    using assms by (auto simp: AllocationFinder_visit_def isValidSize_def split: if_splits)
qed (insert assms, auto simp: AllocationFinder_visit_def split: if_splits)

lemma AllocationFinder_walk_arrayNews:
  assumes "AllocationFinder_walk ar f nodes = Inr f'" and "cur \<in> set (arrayNews f')"
  shows "cur \<in> set (arrayNews f) \<or>
         (cur \<in> set nodes \<and> type (ar cur) \<noteq> unreachable \<and>
          ((\<exists>sz init w. kind (ar cur) = ArrayNew sz init \<and> kind (ar sz) = Const (LitI32 w)
                          \<and> unat w < 20)
           \<or> (\<exists>values. kind (ar cur) = ArrayNewFixed values \<and> length values < 20)))"
  using assms
proof (induction nodes arbitrary: f)
  case Nil
  then show ?case by simp
next
  case (Cons n nodes)
  from Cons.prems(1) obtain f1 where v: "AllocationFinder_visit ar f n = Inr f1"
    and w: "AllocationFinder_walk ar f1 nodes = Inr f'"
    by (auto split: sum.splits)
  from Cons.IH[OF w Cons.prems(2)] AllocationFinder_visit_arrayNews[OF v]
  show ?case by auto
qed

text \<open>
  C7 (array candidates). After the finder has walked a body, an expression is among
  \<open>arrayNews\<close>, the only array allocations that \<open>Heap2Local\<close> goes on to analyse and
  rewrite, only if its type is not \<open>unreachable\<close> and it is either an \<open>array.new\<close>
  whose size operand is a constant of unsigned value below 20, or an
  \<open>array.new_fixed\<close> of fewer than 20 values. So an \<open>array.new\<close> with a size that is
  not a constant, or a constant of 20 or more, is never a candidate.
\<close>

theorem array_candidates_small_constant_size:
  assumes "AllocationFinder_walk ar newAllocationFinder nodes = Inr f"
    and "cur \<in> set (arrayNews f)"
  shows "cur \<in> set nodes \<and> type (ar cur) \<noteq> unreachable \<and>
          ((\<exists>sz init w. kind (ar cur) = ArrayNew sz init \<and> kind (ar sz) = Const (LitI32 w)
                          \<and> unat w < 20)
           \<or> (\<exists>values. kind (ar cur) = ArrayNewFixed values \<and> length values < 20))"
  using AllocationFinder_walk_arrayNews[OF assms]
  by (simp add: newAllocationFinder_def)

lemma finderArena_walk:
  "AllocationFinder_walk finderArena newAllocationFinder [0, 1, 2, 3, 4, 5, 6] =
     Inr \<lparr>structNews = [], arrayNews = [1, 6], hasPop = False\<rparr>"
  by (simp add: AllocationFinder_visit_def isValidSizeExpr_def isValidSize_def
        finderArena_def newAllocationFinder_def)

theorem array_candidates_small_constant_size_witness:
  "AllocationFinder_walk finderArena newAllocationFinder [0, 1, 2, 3, 4, 5, 6] =
     Inr \<lparr>structNews = [], arrayNews = [1, 6], hasPop = False\<rparr>
   \<and> kind (finderArena 1) = ArrayNew 0 None \<and> kind (finderArena 0) = Const (LitI32 3)
   \<and> unat (3 :: 32 word) < 20"
proof -
  have m: "(1::nat) \<in> set (arrayNews \<lparr>structNews = [], arrayNews = [1, 6], hasPop = False\<rparr>)"
    by simp
  note inst = array_candidates_small_constant_size[OF finderArena_walk m]
  have "kind (finderArena 1) = ArrayNew 0 None" "kind (finderArena 0) = Const (LitI32 3)"
    by (simp_all add: finderArena_def)
  with inst finderArena_walk show ?thesis by simp
qed


section \<open>Outlining\<close>

text \<open>
  C8 (order of the pipeline). The substrings that \<open>Outlining::run\<close> turns into
  sequences are the repeated substrings, passed through \<open>dedupe\<close>, then
  \<open>filterOverlaps\<close>, then \<open>filterBranches\<close>, then \<open>filterLocalSets\<close>, then
  \<open>filterLocalGets\<close>, whatever the six stages compute.
\<close>

theorem run_pipeline_order:
  "Outlining_run_substrings P hashString es =
     filterLocalGets P
       (filterLocalSets P
         (filterBranches P
           (filterOverlaps P (dedupe P (repeatSubstrings P hashString))) es) es) es"
  by (simp add: Outlining_run_substrings_def)

text \<open>
  C9 (leaving a sequence), as amended. With a current sequence, when the instruction
  counter is at \<open>endIdx - 1\<close>, \<open>maybeEndSeq\<close> increments \<open>seqCounter\<close> and sets the
  state to \<open>NotInSeq\<close>; from \<open>InSeq\<close> it first calls \<open>visitEnd\<close> on the outlined
  builder, and stops with \<open>Fatal\<close> if that fails; from \<open>InSkipSeq\<close> it touches no
  builder. It calls \<open>build\<close> on neither builder.
\<close>

theorem maybeEndSeq_transition:
  assumes "unat (seqCounter w) < length (sequences w)"
    and "instrCounter w = endIdx (sequences w ! unat (seqCounter w)) - 1"
  shows "(state w = InSeq \<longrightarrow>
            maybeEndSeq ops w =
              (case visitEnd ops (outlinedBuilder w) of
                 Inl msg \<Rightarrow> Inl (Fatal msg)
               | Inr b \<Rightarrow> Inr (w\<lparr>state := NotInSeq, seqCounter := seqCounter w + 1,
                                 outlinedBuilder := b\<rparr>)))
       \<and> (state w = InSkipSeq \<longrightarrow>
            maybeEndSeq ops w = Inr (w\<lparr>state := NotInSeq, seqCounter := seqCounter w + 1\<rparr>))"
  using assms
  by (auto simp: maybeEndSeq_def transitionToNotInSeq_def split: sum.splits)

theorem maybeEndSeq_transition_witness:
  "unat (seqCounter inSeqWalker) < length (sequences inSeqWalker)
   \<and> instrCounter inSeqWalker
       = endIdx (sequences inSeqWalker ! unat (seqCounter inSeqWalker)) - 1
   \<and> state inSeqWalker = InSeq
   \<and> maybeEndSeq traceBuilder inSeqWalker =
       Inr (inSeqWalker\<lparr>state := NotInSeq, seqCounter := 1,
                         outlinedBuilder := [VisitEndCall]\<rparr>)
   \<and> maybeEndSeq traceBuilder (inSeqWalker\<lparr>state := InSkipSeq\<rparr>) =
       Inr (inSeqWalker\<lparr>state := NotInSeq, seqCounter := 1\<rparr>)"
proof -
  have a: "unat (seqCounter inSeqWalker) < length (sequences inSeqWalker)"
    by (simp add: inSeqWalker_def)
  have b: "instrCounter inSeqWalker
             = endIdx (sequences inSeqWalker ! unat (seqCounter inSeqWalker)) - 1"
    by (simp add: inSeqWalker_def)
  have a': "unat (seqCounter (inSeqWalker\<lparr>state := InSkipSeq\<rparr>))
              < length (sequences (inSeqWalker\<lparr>state := InSkipSeq\<rparr>))"
    by (simp add: inSeqWalker_def)
  have b': "instrCounter (inSeqWalker\<lparr>state := InSkipSeq\<rparr>)
              = endIdx (sequences (inSeqWalker\<lparr>state := InSkipSeq\<rparr>)
                          ! unat (seqCounter (inSeqWalker\<lparr>state := InSkipSeq\<rparr>))) - 1"
    by (simp add: inSeqWalker_def)
  have s: "state inSeqWalker = InSeq" by (simp add: inSeqWalker_def)
  from maybeEndSeq_transition[OF a b, of traceBuilder]
       maybeEndSeq_transition[OF a' b', of traceBuilder] a b s
  show ?thesis by (simp add: traceBuilder_def inSeqWalker_def)
qed

text \<open>
  The claim as stated has the callee finished by "end + build": on the recording
  builder, the outlined builder receives \<open>visitEnd\<close> and nothing after it.
\<close>

theorem maybeEndSeq_build_counterexample:
  "state inSeqWalker = InSeq
   \<and> instrCounter inSeqWalker
       = endIdx (sequences inSeqWalker ! unat (seqCounter inSeqWalker)) - 1
   \<and> maybeEndSeq traceBuilder inSeqWalker =
       Inr (inSeqWalker\<lparr>state := NotInSeq, seqCounter := 1,
                         outlinedBuilder := [VisitEndCall]\<rparr>)
   \<and> maybeEndSeq traceBuilder inSeqWalker \<noteq>
       Inr (inSeqWalker\<lparr>state := NotInSeq, seqCounter := 1,
                         outlinedBuilder := [VisitEndCall, BuildCall]\<rparr>)"
  by (simp add: maybeEndSeq_def transitionToNotInSeq_def traceBuilder_def inSeqWalker_def)

text \<open>
  C10 (moving the outlined functions). For \<open>outlinedCount\<close> at most the number of
  functions, \<open>moveOutlinedFunctions\<close> returns the last \<open>outlinedCount\<close> functions, in
  their order, followed by the others, in their order: the same functions, as many as
  before, and none of them lost to the move.
\<close>

theorem moveOutlinedFunctions_rotates:
  assumes "outlinedCount \<le> length functions"
  shows "\<exists>fs. moveOutlinedFunctions functions outlinedCount = Inr fs
           \<and> fs = drop (length functions - outlinedCount) functions
                    @ take (length functions - outlinedCount) functions
           \<and> take outlinedCount fs = drop (length functions - outlinedCount) functions
           \<and> drop outlinedCount fs = take (length functions - outlinedCount) functions
           \<and> length fs = length functions
           \<and> mset fs = mset functions"
proof -
  let ?n = "length functions"
  let ?fs = "drop (?n - outlinedCount) functions @ take (?n - outlinedCount) functions"
  have len: "length (drop (?n - outlinedCount) functions) = outlinedCount"
    using assms by simp
  have m: "moveOutlinedFunctions functions outlinedCount = Inr ?fs"
    using assms by (simp add: moveOutlinedFunctions_def Let_def min_def)
  have "mset ?fs = mset (take (?n - outlinedCount) functions @ drop (?n - outlinedCount) functions)"
    by (simp only: mset_append add.commute)
  then have ms: "mset ?fs = mset functions" by simp
  from m len ms assms show ?thesis by simp
qed

theorem moveOutlinedFunctions_rotates_witness:
  "(2::nat) \<le> length [Some ''f'', Some ''g'', Some ''outline$0'', Some ''outline$1'']
   \<and> moveOutlinedFunctions [Some ''f'', Some ''g'', Some ''outline$0'', Some ''outline$1''] 2
       = Inr [Some ''outline$0'', Some ''outline$1'', Some ''f'', Some ''g'']"
proof -
  have h: "(2::nat) \<le> length [Some ''f'', Some ''g'', Some ''outline$0'', Some ''outline$1'']"
    by simp
  from h moveOutlinedFunctions_rotates[OF h] show ?thesis by auto
qed

end
